theory Spec2Isabelle
  imports Complex_Main
begin

section \<open>JavaScript Number values\<close>

text \<open>
  The calculator computes with JavaScript Numbers, that is IEEE 754 binary64 values.
  A Number is NaN, an infinity, or a finite value given by its sign bit (\<open>True\<close> is
  negative) and its magnitude, an exact rational; \<open>Num True 0\<close> is the negative zero.
  Every arithmetic operation computes the exact rational result and rounds it to the
  nearest binary64 value, ties to even (\<open>round64\<close>).
\<close>

datatype number = NaN | Infinity bool | Num bool rat

fun bits :: "nat \<Rightarrow> nat" where
  "bits n = (if n = 0 then 0 else Suc (bits (n div 2)))"

declare bits.simps [simp del]

definition pow2 :: "int \<Rightarrow> rat" where
  "pow2 k = (if 0 \<le> k then 2 ^ nat k else 1 / 2 ^ nat (- k))"

text \<open>\<open>ilog2 m\<close> is the binary exponent of a positive rational: \<open>2^e \<le> m < 2^(e+1)\<close>.\<close>

definition ilog2 :: "rat \<Rightarrow> int" where
  "ilog2 m = (if 1 \<le> m then int (bits (nat \<lfloor>m\<rfloor>)) - 1
              else - int (bits (nat (\<lceil>1 / m\<rceil> - 1))))"

definition round_half_even :: "rat \<Rightarrow> int" where
  "round_half_even x =
     (let f = \<lfloor>x\<rfloor>; d = x - of_int f
      in if d < 1 / 2 then f else if 1 / 2 < d then f + 1
         else if even f then f else f + 1)"

text \<open>
  Rounding of a magnitude to binary64: 53 significant bits, least exponent \<open>-1022\<close>
  (below it the spacing stays \<open>2^-1074\<close>, the subnormal range), overflow to infinity
  from \<open>2^1024\<close> on. The sign is carried along, so a negative result that underflows
  is the negative zero.
\<close>

definition round64 :: "bool \<Rightarrow> rat \<Rightarrow> number" where
  "round64 s m =
     (if m = 0 then Num s 0
      else let q = max (ilog2 m) (- 1022) - 52;
               r = of_int (round_half_even (m / pow2 q)) * pow2 q
           in if pow2 1024 \<le> r then Infinity s else Num s r)"

fun signed :: "bool \<Rightarrow> rat \<Rightarrow> rat" where
  "signed s m = (if s then - m else m)"

fun isNaN :: "number \<Rightarrow> bool" where
  "isNaN NaN = True"
| "isNaN _ = False"

fun js_neg :: "number \<Rightarrow> number" where
  "js_neg NaN = NaN"
| "js_neg (Infinity s) = Infinity (\<not> s)"
| "js_neg (Num s m) = Num (\<not> s) m"

fun js_add :: "number \<Rightarrow> number \<Rightarrow> number" where
  "js_add NaN _ = NaN"
| "js_add _ NaN = NaN"
| "js_add (Infinity s) (Infinity t) = (if s = t then Infinity s else NaN)"
| "js_add (Infinity s) (Num _ _) = Infinity s"
| "js_add (Num _ _) (Infinity t) = Infinity t"
| "js_add (Num s a) (Num t b) =
     (let r = signed s a + signed t b
      in if r = 0 then Num (s \<and> t) 0 else round64 (r < 0) \<bar>r\<bar>)"

definition js_sub :: "number \<Rightarrow> number \<Rightarrow> number" where
  "js_sub x y = js_add x (js_neg y)"

fun js_mul :: "number \<Rightarrow> number \<Rightarrow> number" where
  "js_mul NaN _ = NaN"
| "js_mul _ NaN = NaN"
| "js_mul (Infinity s) (Infinity t) = Infinity (s \<noteq> t)"
| "js_mul (Infinity s) (Num t b) = (if b = 0 then NaN else Infinity (s \<noteq> t))"
| "js_mul (Num s a) (Infinity t) = (if a = 0 then NaN else Infinity (s \<noteq> t))"
| "js_mul (Num s a) (Num t b) = round64 (s \<noteq> t) (a * b)"

fun js_div :: "number \<Rightarrow> number \<Rightarrow> number" where
  "js_div NaN _ = NaN"
| "js_div _ NaN = NaN"
| "js_div (Infinity s) (Infinity t) = NaN"
| "js_div (Infinity s) (Num t b) = Infinity (s \<noteq> t)"
| "js_div (Num s a) (Infinity t) = Num (s \<noteq> t) 0"
| "js_div (Num s a) (Num t b) =
     (if b = 0 then (if a = 0 then NaN else Infinity (s \<noteq> t))
      else round64 (s \<noteq> t) (a / b))"

text \<open>The relational operators: every comparison with NaN is false, the two zeros are equal.\<close>

fun js_lt :: "number \<Rightarrow> number \<Rightarrow> bool" where
  "js_lt NaN _ = False"
| "js_lt _ NaN = False"
| "js_lt (Infinity s) (Infinity t) = (s \<and> \<not> t)"
| "js_lt (Infinity s) (Num _ _) = s"
| "js_lt (Num _ _) (Infinity t) = (\<not> t)"
| "js_lt (Num s a) (Num t b) = (signed s a < signed t b)"

definition js_gt :: "number \<Rightarrow> number \<Rightarrow> bool" where
  "js_gt x y = js_lt y x"

definition js_le :: "number \<Rightarrow> number \<Rightarrow> bool" where
  "js_le x y = (\<not> isNaN x \<and> \<not> isNaN y \<and> \<not> js_lt y x)"

definition js_ge :: "number \<Rightarrow> number \<Rightarrow> bool" where
  "js_ge x y = (\<not> isNaN x \<and> \<not> isNaN y \<and> \<not> js_lt x y)"

text \<open>Strict equality \<open>===\<close> on Numbers: false on NaN, true on the two zeros.\<close>

fun js_eq :: "number \<Rightarrow> number \<Rightarrow> bool" where
  "js_eq NaN _ = False"
| "js_eq _ NaN = False"
| "js_eq (Infinity s) (Infinity t) = (s = t)"
| "js_eq (Infinity _) (Num _ _) = False"
| "js_eq (Num _ _) (Infinity _) = False"
| "js_eq (Num s a) (Num t b) = (signed s a = signed t b)"

text \<open>\<open>ToBoolean\<close> of a Number, and the operator \<open>||\<close> on Numbers.\<close>

fun truthy :: "number \<Rightarrow> bool" where
  "truthy NaN = False"
| "truthy (Infinity _) = True"
| "truthy (Num _ m) = (m \<noteq> 0)"

definition js_or :: "number \<Rightarrow> number \<Rightarrow> number" where
  "js_or a b = (if truthy a then a else b)"


section \<open>Strings and \<open>parseFloat\<close>\<close>

definition is_digit :: "char \<Rightarrow> bool" where
  "is_digit c = (c \<in> set ''0123456789'')"

definition digit_val :: "char \<Rightarrow> nat" where
  "digit_val c = length (takeWhile (\<lambda>d. d \<noteq> c) ''0123456789'')"

definition digit_char :: "nat \<Rightarrow> char" where
  "digit_char d = ''0123456789'' ! d"

definition digits_val :: "string \<Rightarrow> nat" where
  "digits_val ds = foldl (\<lambda>a c. 10 * a + digit_val c) 0 ds"

definition pow10 :: "int \<Rightarrow> rat" where
  "pow10 k = (if 0 \<le> k then 10 ^ nat k else 1 / 10 ^ nat (- k))"

definition is_space :: "char \<Rightarrow> bool" where
  "is_space c =
     (c \<in> set [CHR 0x09, CHR 0x0A, CHR 0x0B, CHR 0x0C, CHR 0x0D, CHR '' '', CHR 0xA0])"

text \<open>
  The built-in \<open>parseFloat\<close> (ECMA-262, 19.2.4): leading white space is skipped, the
  longest prefix that is a \<open>StrDecimalLiteral\<close> is read (sign, \<open>Infinity\<close>, digits
  with an optional point, an optional exponent part) and its mathematical value is
  rounded to the nearest Number; without such a prefix the result is NaN. In
  particular the empty string and the string \<open>.\<close> parse to NaN. A character is a
  code unit below 256, so the white space skipped is the ASCII white space and the
  no-break space; the other Unicode spaces lie beyond that range. The value is rounded
  correctly whatever the number of digits, as the engines do.
\<close>

definition parse_exponent :: "string \<Rightarrow> int" where
  "parse_exponent r =
     (case r of
        [] \<Rightarrow> 0
      | c # r1 \<Rightarrow>
          if c = CHR ''e'' \<or> c = CHR ''E'' then
            (case r1 of
               [] \<Rightarrow> 0
             | d # r2 \<Rightarrow>
                 if d = CHR ''-'' then
                   (let ds = takeWhile is_digit r2
                    in if ds = [] then 0 else - int (digits_val ds))
                 else if d = CHR ''+'' then
                   (let ds = takeWhile is_digit r2
                    in if ds = [] then 0 else int (digits_val ds))
                 else int (digits_val (takeWhile is_digit r1)))
          else 0)"

definition parse_unsigned :: "bool \<Rightarrow> string \<Rightarrow> number" where
  "parse_unsigned s r =
     (if take 8 r = ''Infinity'' then Infinity s
      else
        let d1 = takeWhile is_digit r;
            r1 = dropWhile is_digit r;
            point = (r1 \<noteq> [] \<and> hd r1 = CHR ''.'');
            d2 = (if point then takeWhile is_digit (tl r1) else []);
            r2 = (if point then dropWhile is_digit (tl r1) else r1)
        in if d1 = [] \<and> d2 = [] then NaN
           else round64 s (of_nat (digits_val (d1 @ d2)) / 10 ^ length d2
                             * pow10 (parse_exponent r2)))"

definition parseFloat :: "string \<Rightarrow> number" where
  "parseFloat str =
     (let t = dropWhile is_space str
      in case t of
           [] \<Rightarrow> NaN
         | c # r \<Rightarrow>
             if c = CHR ''-'' then parse_unsigned True r
             else if c = CHR ''+'' then parse_unsigned False r
             else parse_unsigned False t)"

text \<open>The input filter of \<open>handleInputChange\<close>, the regular expression \<open>/^\d*\.?\d*$/\<close>.\<close>

definition numeric_input :: "string \<Rightarrow> bool" where
  "numeric_input v =
     (let r1 = dropWhile is_digit v;
          r2 = (if r1 \<noteq> [] \<and> hd r1 = CHR ''.'' then tl r1 else r1)
      in dropWhile is_digit r2 = [])"

section \<open>The calculator component\<close>

text \<open>
  The ten form fields, in the order of the object literal of \<open>useState\<close>. The same
  shape holds the raw strings (\<open>formData\<close>) and the parsed Numbers (\<open>values\<close>).
\<close>

record 'a InputSet =
  carPrice :: 'a
  fuelEfficiency :: 'a
  fuelPrice :: 'a
  distanceToWork :: 'a
  workingDaysPerMonth :: 'a
  maintenanceCosts :: 'a
  insuranceCosts :: 'a
  resaleValue :: 'a
  resaleYears :: 'a
  publicTransportCosts :: 'a

record CalculationResult =
  totalCarCost :: number
  totalCommuteCost :: number
  monthlySavings :: number
  yearlySavings :: number
  fuelCosts :: number
  maintenanceCost :: number
  insuranceCost :: number
  depreciationCost :: number
  yearlyEmissions :: number

type_synonym FormErrors = "string \<rightharpoonup> string"

text \<open>The component state that the calculation reads and writes (the three \<open>useState\<close> cells).\<close>

record State =
  formData :: "string InputSet"
  errors :: FormErrors
  result :: "CalculationResult option"

definition initialState :: State where
  "initialState =
     \<lparr>formData = \<lparr>carPrice = [], fuelEfficiency = [], fuelPrice = [], distanceToWork = [],
                   workingDaysPerMonth = [], maintenanceCosts = [], insuranceCosts = [],
                   resaleValue = [], resaleYears = [], publicTransportCosts = []\<rparr>,
      errors = Map.empty, result = None\<rparr>"

text \<open>\<open>Object.entries(formData)\<close>: the fields by name, in insertion order.\<close>

definition entries :: "'a InputSet \<Rightarrow> (string \<times> 'a) list" where
  "entries fd =
     [(''carPrice'', carPrice fd), (''fuelEfficiency'', fuelEfficiency fd),
      (''fuelPrice'', fuelPrice fd), (''distanceToWork'', distanceToWork fd),
      (''workingDaysPerMonth'', workingDaysPerMonth fd),
      (''maintenanceCosts'', maintenanceCosts fd), (''insuranceCosts'', insuranceCosts fd),
      (''resaleValue'', resaleValue fd), (''resaleYears'', resaleYears fd),
      (''publicTransportCosts'', publicTransportCosts fd)]"

text \<open>
  \<open>formData[field]\<close>: the field of that name; a name that is no key gives
  \<open>undefined\<close>, which the code only tests with \<open>!\<close>, where it behaves as the empty
  string does.
\<close>

definition getField :: "string InputSet \<Rightarrow> string \<Rightarrow> string" where
  "getField fd name = (case map_of (entries fd) name of Some v \<Rightarrow> v | None \<Rightarrow> [])"

text \<open>
  \<open>{...prev, [name]: value}\<close>. The markup passes only the ten field names; for any
  other name the record is left as it is.
\<close>

definition setField :: "string \<Rightarrow> 'a \<Rightarrow> 'a InputSet \<Rightarrow> 'a InputSet" where
  "setField name v fd =
     (if name = ''carPrice'' then fd\<lparr>carPrice := v\<rparr>
      else if name = ''fuelEfficiency'' then fd\<lparr>fuelEfficiency := v\<rparr>
      else if name = ''fuelPrice'' then fd\<lparr>fuelPrice := v\<rparr>
      else if name = ''distanceToWork'' then fd\<lparr>distanceToWork := v\<rparr>
      else if name = ''workingDaysPerMonth'' then fd\<lparr>workingDaysPerMonth := v\<rparr>
      else if name = ''maintenanceCosts'' then fd\<lparr>maintenanceCosts := v\<rparr>
      else if name = ''insuranceCosts'' then fd\<lparr>insuranceCosts := v\<rparr>
      else if name = ''resaleValue'' then fd\<lparr>resaleValue := v\<rparr>
      else if name = ''resaleYears'' then fd\<lparr>resaleYears := v\<rparr>
      else if name = ''publicTransportCosts'' then fd\<lparr>publicTransportCosts := v\<rparr>
      else fd)"

definition validateField :: "string \<Rightarrow> string \<Rightarrow> string" where
  "validateField name v =
     (if v = [] then []
      else
        let numValue = parseFloat v
        in if name = ''carPrice'' then
             (if js_le numValue (Num False 0) then ''Car price must be greater than 0'' else [])
           else if name = ''fuelEfficiency'' then
             (if js_le numValue (Num False 0) then ''Fuel efficiency must be greater than 0''
              else [])
           else if name = ''fuelPrice'' then
             (if js_le numValue (Num False 0) then ''Fuel price must be greater than 0'' else [])
           else if name = ''workingDaysPerMonth'' then
             (if js_le numValue (Num False 0) \<or> js_gt numValue (Num False 31)
              then ''Working days must be between 1 and 31'' else [])
           else if name = ''resaleYears'' then
             (if js_le numValue (Num False 0) then ''Years until resale must be greater than 0''
              else [])
           else (if js_lt numValue (Num False 0) then ''Value cannot be negative'' else []))"

definition handleInputChange :: "string \<Rightarrow> string \<Rightarrow> State \<Rightarrow> State" where
  "handleInputChange name v st =
     (if v = [] \<or> numeric_input v then
        st\<lparr>formData := setField name v (formData st),
           errors := (errors st)(name \<mapsto> (if v \<noteq> [] then validateField name v else []))\<rparr>
      else st)"

definition requiredFields :: "string list" where
  "requiredFields = [''carPrice'', ''fuelEfficiency'', ''fuelPrice'', ''workingDaysPerMonth'']"

text \<open>
  \<open>validateForm\<close>: the two \<open>forEach\<close> passes thread \<open>newErrors\<close> and \<open>isValid\<close>;
  the function returns \<open>isValid\<close> and stores \<open>newErrors\<close> as the error mapping.
\<close>

definition validateAll :: "string InputSet \<Rightarrow> FormErrors \<times> bool" where
  "validateAll fd =
     foldl (\<lambda>(newErrors, isValid) (name, v).
              let error = validateField name v
              in if error \<noteq> [] then (newErrors(name \<mapsto> error), False)
                 else (newErrors, isValid))
           (Map.empty, True) (entries fd)"

definition checkRequired :: "string InputSet \<Rightarrow> FormErrors \<times> bool \<Rightarrow> FormErrors \<times> bool" where
  "checkRequired fd acc =
     foldl (\<lambda>(newErrors, isValid) field.
              if getField fd field = [] then
                (newErrors(field \<mapsto> ''This field is required''), False)
              else (newErrors, isValid))
           acc requiredFields"

definition validateForm :: "State \<Rightarrow> bool \<times> State" where
  "validateForm st =
     (let (newErrors, isValid) = checkRequired (formData st) (validateAll (formData st))
      in (isValid, st\<lparr>errors := newErrors\<rparr>))"

definition CO2_PER_KM :: number where
  "CO2_PER_KM = round64 False (404 / 1000)"

definition calculateEmissions :: "number \<Rightarrow> number" where
  "calculateEmissions monthlyDistance =
     js_div (js_mul (js_mul monthlyDistance (Num False 12)) CO2_PER_KM) (Num False 1000)"

text \<open>The object \<open>values\<close> of \<open>calculateCosts\<close> (the name is reserved here): each field parsed,
  with its default.\<close>

definition parsedValues :: "string InputSet \<Rightarrow> number InputSet" where
  "parsedValues fd =
     \<lparr>carPrice = js_or (parseFloat (carPrice fd)) (Num False 0),
      fuelEfficiency = js_or (parseFloat (fuelEfficiency fd)) (Num False 0),
      fuelPrice = js_or (parseFloat (fuelPrice fd)) (Num False 0),
      distanceToWork = js_or (parseFloat (distanceToWork fd)) (Num False 0),
      workingDaysPerMonth = js_or (parseFloat (workingDaysPerMonth fd)) (Num False 0),
      maintenanceCosts = js_or (parseFloat (maintenanceCosts fd)) (Num False 0),
      insuranceCosts = js_or (parseFloat (insuranceCosts fd)) (Num False 0),
      resaleValue = js_or (parseFloat (resaleValue fd)) (Num False 0),
      resaleYears = js_or (parseFloat (resaleYears fd)) (Num False 1),
      publicTransportCosts = js_or (parseFloat (publicTransportCosts fd)) (Num False 0)\<rparr>"

text \<open>
  The body of the \<open>try\<close> block. Arithmetic on Numbers never throws, so the \<open>catch\<close>
  branch with its alert is not reachable and has no counterpart here.
\<close>

definition computeResult :: "number InputSet \<Rightarrow> CalculationResult" where
  "computeResult v =
     (let monthlyDistance = js_mul (js_mul (distanceToWork v) (Num False 2)) (workingDaysPerMonth v);
          monthlyFuelCosts = js_mul (js_div monthlyDistance (fuelEfficiency v)) (fuelPrice v);
          totalDepreciation = js_sub (carPrice v) (resaleValue v);
          monthlyDepreciation = js_div totalDepreciation (js_mul (resaleYears v) (Num False 12));
          monthlyCarCosts =
            js_add (js_add (js_add monthlyFuelCosts (maintenanceCosts v))
                           (js_div (insuranceCosts v) (Num False 12)))
                   monthlyDepreciation;
          yearlyCarCosts = js_mul monthlyCarCosts (Num False 12);
          yearlyCommuteCosts = js_mul (publicTransportCosts v) (Num False 12);
          yearlyEmissions = calculateEmissions monthlyDistance
      in \<lparr>totalCarCost = monthlyCarCosts,
          totalCommuteCost = publicTransportCosts v,
          monthlySavings = js_sub (publicTransportCosts v) monthlyCarCosts,
          yearlySavings = js_sub yearlyCommuteCosts yearlyCarCosts,
          fuelCosts = monthlyFuelCosts,
          maintenanceCost = maintenanceCosts v,
          insuranceCost = js_div (insuranceCosts v) (Num False 12),
          depreciationCost = monthlyDepreciation,
          yearlyEmissions = yearlyEmissions\<rparr>)"

definition calculateCosts :: "State \<Rightarrow> State" where
  "calculateCosts st =
     (let (isValid, st1) = validateForm st
      in if \<not> isValid then st1
         else st1\<lparr>result := Some (computeResult (parsedValues (formData st)))\<rparr>)"

text \<open>
  The states the component can be in: it starts with every field empty and no result,
  and changes only through the two handlers. \<open>typed_in fd\<close> is the state after the
  ten fields have been typed in from the start.
\<close>

inductive reachable :: "State \<Rightarrow> bool" where
  initial: "reachable initialState"
| input: "reachable st \<Longrightarrow> reachable (handleInputChange name v st)"
| calculate: "reachable st \<Longrightarrow> reachable (calculateCosts st)"

definition all_numeric :: "string InputSet \<Rightarrow> bool" where
  "all_numeric fd = (\<forall>v \<in> set (map snd (entries fd)). numeric_input v)"

definition typed_in :: "string InputSet \<Rightarrow> State" where
  "typed_in fd = foldl (\<lambda>st (name, v). handleInputChange name v st) initialState (entries fd)"

section \<open>The number formatter\<close>

fun digits :: "nat \<Rightarrow> string" where
  "digits n = (if n < 10 then [digit_char n] else digits (n div 10) @ [digit_char (n mod 10)])"

declare digits.simps [simp del]

text \<open>
  The built-in \<open>Number.prototype.toFixed\<close> (ECMA-262, 21.1.3.3): a value that is not
  finite gives its name; otherwise the magnitude is scaled by \<open>10^f\<close>, rounded to the
  nearest integer (a tie goes up) and printed with \<open>f\<close> digits after the point, with
  a minus sign for a value below zero. From \<open>10^21\<close> on the result is the exponential
  text of \<open>Number::toString\<close>, whose last digit the standard leaves to the
  implementation: that text is the parameter \<open>expText\<close>.
\<close>

definition toFixed :: "(rat \<Rightarrow> string) \<Rightarrow> number \<Rightarrow> nat \<Rightarrow> string" where
  "toFixed expText x f =
     (case x of
        NaN \<Rightarrow> ''NaN''
      | Infinity s \<Rightarrow> (if s then ''-Infinity'' else ''Infinity'')
      | Num s m \<Rightarrow>
          (let sgn = (if s \<and> m \<noteq> 0 then ''-'' else [])
           in if 10 ^ 21 \<le> m then sgn @ expText m
              else
                let n = nat \<lfloor>m * 10 ^ f + 1 / 2\<rfloor>;
                    d = digits n;
                    p = replicate (f + 1 - length d) (CHR ''0'') @ d
                in if f = 0 then sgn @ p
                   else sgn @ take (length p - f) p @ ''.'' @ drop (length p - f) p))"

definition formatIndianNumber :: "(rat \<Rightarrow> string) \<Rightarrow> number \<Rightarrow> string" where
  "formatIndianNumber expText num =
     (if js_ge num (Num False 10000000) then
        toFixed expText (js_div num (Num False 10000000)) 2 @ '' Cr''
      else if js_ge num (Num False 100000) then
        toFixed expText (js_div num (Num False 100000)) 2 @ '' L''
      else if js_ge num (Num False 1000) then
        toFixed expText (js_div num (Num False 1000)) 2 @ '' K''
      else toFixed expText num 2)"

text \<open>
  What the specification calls a number rendered with two decimal places: an optional
  minus sign, at least one digit, a point and exactly two digits.
\<close>

definition two_decimals :: "string \<Rightarrow> bool" where
  "two_decimals str =
     (let u = (if str \<noteq> [] \<and> hd str = CHR ''-'' then tl str else str);
          i = takeWhile is_digit u;
          r = dropWhile is_digit u
      in i \<noteq> [] \<and> length r = 3 \<and> hd r = CHR ''.'' \<and> is_digit (r ! 1) \<and> is_digit (r ! 2))"

section \<open>Example inputs\<close>

text \<open>
  Forms used as examples below. The state of each is the one reached by typing the form
  in, field by field, from the initial state.
\<close>

text \<open>The scenario of the specification: every field filled in.\<close>

definition scenarioForm :: "string InputSet" where
  "scenarioForm =
     \<lparr>carPrice = ''600000'', fuelEfficiency = ''15'', fuelPrice = ''100'',
      distanceToWork = ''10'', workingDaysPerMonth = ''22'', maintenanceCosts = ''1000'',
      insuranceCosts = ''12000'', resaleValue = ''200000'', resaleYears = ''5'',
      publicTransportCosts = ''2000''\<rparr>"

definition scenarioState :: State where
  "scenarioState = typed_in scenarioForm"

text \<open>A car that is expected to sell for more than it cost.\<close>

definition resaleForm :: "string InputSet" where
  "resaleForm =
     \<lparr>carPrice = ''100000'', fuelEfficiency = ''10'', fuelPrice = ''100'',
      distanceToWork = ''5'', workingDaysPerMonth = ''20'', maintenanceCosts = [],
      insuranceCosts = [], resaleValue = ''160000'', resaleYears = ''5'',
      publicTransportCosts = ''500''\<rparr>"

definition resaleState :: State where
  "resaleState = typed_in resaleForm"

text \<open>A fare with a fraction, where rounding shows.\<close>

definition roundingForm :: "string InputSet" where
  "roundingForm =
     \<lparr>carPrice = ''600000'', fuelEfficiency = ''1'', fuelPrice = ''1'',
      distanceToWork = [], workingDaysPerMonth = ''1'', maintenanceCosts = [],
      insuranceCosts = [], resaleValue = [], resaleYears = [],
      publicTransportCosts = ''0.3''\<rparr>"

definition roundingState :: State where
  "roundingState = typed_in roundingForm"

text \<open>A lone decimal point typed as the fuel efficiency.\<close>

definition pointForm :: "string InputSet" where
  "pointForm =
     \<lparr>carPrice = ''600000'', fuelEfficiency = ''.'', fuelPrice = ''100'',
      distanceToWork = ''10'', workingDaysPerMonth = ''22'', maintenanceCosts = [],
      insuranceCosts = [], resaleValue = [], resaleYears = [],
      publicTransportCosts = []\<rparr>"

definition pointState :: State where
  "pointState = typed_in pointForm"

text \<open>A price and a resale value of 310 digits, beyond the binary64 range.\<close>

definition hugeDigits :: string where
  "hugeDigits = CHR ''1'' # replicate 309 (CHR ''0'')"

definition overflowForm :: "string InputSet" where
  "overflowForm =
     \<lparr>carPrice = hugeDigits, fuelEfficiency = ''15'', fuelPrice = ''100'',
      distanceToWork = ''10'', workingDaysPerMonth = ''22'', maintenanceCosts = [],
      insuranceCosts = [], resaleValue = hugeDigits, resaleYears = [],
      publicTransportCosts = []\<rparr>"

definition overflowState :: State where
  "overflowState = typed_in overflowForm"

text \<open>The scenario calculated, then the car price cleared again.\<close>

definition clearedState :: State where
  "clearedState = handleInputChange ''carPrice'' [] (calculateCosts scenarioState)"

section \<open>Rounding: binary exponent, nearest value, exact values\<close>

lemma pow2_powi: "pow2 k = 2 powi k"
  by (simp add: pow2_def power_int_def inverse_eq_divide power_one_over)

lemma pow2_pos: "0 < pow2 k"
  by (simp add: pow2_powi)

lemma pow2_add: "pow2 (a + b) = pow2 a * pow2 b"
  by (simp add: pow2_powi power_int_add)

lemma pow2_mono: "a \<le> b \<Longrightarrow> pow2 a \<le> pow2 b"
  by (simp add: pow2_powi power_int_increasing)

lemma pow2_strict_mono: "a < b \<Longrightarrow> pow2 a < pow2 b"
  by (simp add: pow2_powi power_int_strict_increasing)

lemma pow2_nat: "pow2 (int k) = 2 ^ k"
  by (simp add: pow2_def)

lemma pow2_neg_nat: "pow2 (- int k) = 1 / 2 ^ k"
  by (simp add: pow2_powi power_int_minus divide_inverse)

lemma bits_bounds: "0 < n \<Longrightarrow> 2 ^ (bits n - 1) \<le> n \<and> n < 2 ^ bits n"
proof (induction n rule: bits.induct)
  case (1 n)
  show ?case
  proof (cases "n div 2 = 0")
    case True
    with "1.prems" have "n = 1" by (simp add: div_eq_0_iff) 
    then show ?thesis by (simp add: bits.simps)
  next
    case False
    then have pos: "0 < n div 2" by simp
    with "1.IH" "1.prems" have ih: "2 ^ (bits (n div 2) - 1) \<le> n div 2" "n div 2 < 2 ^ bits (n div 2)"
      by auto
    have b: "bits n = Suc (bits (n div 2))" using "1.prems" by (subst bits.simps) simp
    have bp: "0 < bits (n div 2)" using pos by (subst bits.simps) simp
    then obtain k where k: "bits (n div 2) = Suc k" by (cases "bits (n div 2)") auto
    from ih k have "2 * 2 ^ k \<le> 2 * (n div 2)" by simp
    also have "\<dots> \<le> n" by simp
    finally have lo: "2 ^ (bits n - 1) \<le> n" using b k by simp
    from ih(2) have "n div 2 + 1 \<le> 2 ^ bits (n div 2)" by simp
    then have "2 * (n div 2) + 2 \<le> 2 * 2 ^ bits (n div 2)" by simp
    moreover have "n < 2 * (n div 2) + 2" by arith
    ultimately have "n < 2 ^ bits n" using b by simp
    with lo show ?thesis by simp
  qed
qed

lemma pow_le_of_nat: "2 ^ k \<le> (n::nat) \<Longrightarrow> (2::rat) ^ k \<le> of_nat n"
  by (metis of_nat_le_iff of_nat_numeral of_nat_power)

lemma of_nat_less_pow: "(n::nat) < 2 ^ k \<Longrightarrow> (of_nat n :: rat) + 1 \<le> 2 ^ k"
proof -
  assume "n < 2 ^ k"
  then have "n + 1 \<le> 2 ^ k" by simp
  then have "(of_nat (n + 1) :: rat) \<le> of_nat (2 ^ k)" by (simp only: of_nat_le_iff)
  then show ?thesis by simp
qed

lemma ilog2_bounds:
  assumes "0 < m"
  shows "pow2 (ilog2 m) \<le> m \<and> m < pow2 (ilog2 m + 1)"
proof (cases "1 \<le> m")
  case True
  define n where "n = nat \<lfloor>m\<rfloor>"
  have fl: "1 \<le> \<lfloor>m\<rfloor>" using True by (simp add: le_floor_iff)
  then have npos: "0 < n" by (simp add: n_def)
  have "(of_nat n :: rat) = of_int \<lfloor>m\<rfloor>" using fl by (simp add: n_def)
  then have nm: "of_nat n \<le> m" "m < of_nat n + 1"
    using of_int_floor_le[of m] floor_correct[of m] by simp_all
  from bits_bounds[OF npos] have b: "2 ^ (bits n - 1) \<le> n" "n < 2 ^ bits n" by auto
  have bp: "0 < bits n" using npos by (subst bits.simps) simp
  have e: "ilog2 m = int (bits n - 1)" using True bp by (simp add: ilog2_def n_def)
  have e1: "ilog2 m + 1 = int (bits n)" using e bp by simp
  have "pow2 (ilog2 m) \<le> of_nat n" unfolding e pow2_nat using b(1) by (rule pow_le_of_nat)
  then have lo: "pow2 (ilog2 m) \<le> m" using nm(1) by (rule order_trans)
  have "of_nat n + 1 \<le> pow2 (ilog2 m + 1)" unfolding e1 pow2_nat using b(2) by (rule of_nat_less_pow)
  with nm(2) have "m < pow2 (ilog2 m + 1)" by (rule less_le_trans)
  with lo show ?thesis by simp
next
  case False
  define c where "c = \<lceil>1 / m\<rceil>"
  define n where "n = nat (c - 1)"
  have im: "1 < 1 / m" using False assms by simp
  then have c2: "2 \<le> c" unfolding c_def by (simp add: le_ceiling_iff) 
  then have npos: "0 < n" by (simp add: n_def)
  have cn: "(of_int c :: rat) = of_nat n + 1" using c2 by (simp add: n_def)
  have c: "of_int c - 1 < 1 / m" "1 / m \<le> of_int c" unfolding c_def by linarith+
  from bits_bounds[OF npos] have b: "2 ^ (bits n - 1) \<le> n" "n < 2 ^ bits n" by auto
  have bp: "0 < bits n" using npos by (subst bits.simps) simp
  have e: "ilog2 m = - int (bits n)" using False by (simp add: ilog2_def n_def c_def)
  have "of_nat n + 1 \<le> (2::rat) ^ bits n" using b(2) by (rule of_nat_less_pow)
  with c(2) cn have "1 / m \<le> 2 ^ bits n" by linarith
  then have "1 \<le> 2 ^ bits n * m" using assms by (simp add: field_simps)
  then have lo: "pow2 (ilog2 m) \<le> m" using bp by (simp add: e pow2_def field_simps)
  have "(2::rat) ^ (bits n - 1) \<le> of_nat n" using b(1) by (rule pow_le_of_nat)
  with c(1) cn have "2 ^ (bits n - 1) < 1 / m" by linarith
  then have hi': "2 ^ (bits n - 1) * m < 1" using assms by (simp add: field_simps)
  have "ilog2 m + 1 = - int (bits n - 1)" using e bp by simp
  then have p: "pow2 (ilog2 m + 1) = 1 / 2 ^ (bits n - 1)"
    by (simp only: pow2_neg_nat)
  have "m < 1 / 2 ^ (bits n - 1)" using hi' by (simp add: field_simps)
  then have "m < pow2 (ilog2 m + 1)" by (simp only: p)
  with lo show ?thesis by simp
qed

lemma ilog2_eqI:
  assumes "pow2 e \<le> m" "m < pow2 (e + 1)"
  shows "ilog2 m = e"
proof -
  have "0 < m" using assms(1) pow2_pos[of e] by simp
  from ilog2_bounds[OF this] have b: "pow2 (ilog2 m) \<le> m" "m < pow2 (ilog2 m + 1)" by auto
  have "\<not> ilog2 m < e"
  proof
    assume "ilog2 m < e"
    then have "pow2 (ilog2 m + 1) \<le> pow2 e" by (intro pow2_mono) simp
    with b(2) assms(1) show False by simp
  qed
  moreover have "\<not> e < ilog2 m"
  proof
    assume "e < ilog2 m"
    then have "pow2 (e + 1) \<le> pow2 (ilog2 m)" by (intro pow2_mono) simp
    with b(1) assms(2) show False by simp
  qed
  ultimately show ?thesis by simp
qed

lemma round_half_even_near: "\<bar>x - of_int n\<bar> < 1 / 2 \<Longrightarrow> round_half_even x = n"
proof -
  assume a: "\<bar>x - of_int n\<bar> < 1 / 2"
  show ?thesis
  proof (cases "of_int n \<le> x")
    case True
    then have "\<lfloor>x\<rfloor> = n" using a by (intro floor_unique) auto
    then show ?thesis using a True by (simp add: round_half_even_def Let_def)
  next
    case False
    then have f: "\<lfloor>x\<rfloor> = n - 1" using a by (intro floor_unique) auto
    have "1 / 2 < x - of_int (n - 1)" using a False by auto
    then show ?thesis using f by (simp add: round_half_even_def Let_def)
  qed
qed

lemma round_half_even_of_int: "round_half_even (of_int n) = n"
  by (rule round_half_even_near) simp

lemma round64_near:
  assumes "pow2 e \<le> m" "m < pow2 (e + 1)" "- 1022 \<le> e"
    and "\<bar>m / pow2 (e - 52) - of_int n\<bar> < 1 / 2"
    and "of_int n * pow2 (e - 52) < pow2 1024"
  shows "round64 s m = Num s (of_int n * pow2 (e - 52))"
proof -
  have "0 < m" using assms(1) pow2_pos[of e] by simp
  moreover have "ilog2 m = e" using assms(1,2) by (rule ilog2_eqI)
  moreover have "max e (- 1022) = e" using assms(3) by simp
  moreover have "round_half_even (m / pow2 (e - 52)) = n" using assms(4) by (rule round_half_even_near)
  ultimately show ?thesis using assms(5) by (simp add: round64_def Let_def)
qed


lemma round64_exact:
  assumes m: "m = of_int n * pow2 q" and n: "0 < n" "n < 2 ^ 53" and q: "- 1074 \<le> q" "q \<le> 971"
  shows "round64 s m = Num s m"
proof -
  have mpos: "0 < m" using m n(1) pow2_pos[of q] by simp
  define e where "e = ilog2 m"
  define q' where "q' = max e (- 1022) - 52"
  from ilog2_bounds[OF mpos] have eb: "pow2 e \<le> m" "m < pow2 (e + 1)" by (auto simp: e_def)
  have "(of_int n :: rat) < of_int (2 ^ 53)" using n(2) by (simp only: of_int_less_iff)
  then have "(of_int n :: rat) < pow2 53" by (simp add: pow2_def)
  then have mlt: "m < pow2 (53 + q)" using pow2_pos[of q] by (simp add: m pow2_add)
  have "e < 53 + q"
  proof (rule ccontr)
    assume "\<not> e < 53 + q"
    then have "pow2 (53 + q) \<le> pow2 e" by (intro pow2_mono) simp
    with eb(1) mlt show False by simp
  qed
  then have qq: "q' \<le> q" using q(1) by (simp add: q'_def)
  define k where "k = nat (q - q')"
  have "pow2 q = pow2 (int k) * pow2 q'" using qq by (simp add: k_def pow2_add[symmetric])
  then have "m / pow2 q' = of_int n * pow2 (int k)" using pow2_pos[of q'] by (simp add: m)
  also have "\<dots> = of_int (n * 2 ^ k)" by (simp add: pow2_nat)
  finally have i: "m / pow2 q' = of_int (n * 2 ^ k)" .
  have r: "of_int (round_half_even (m / pow2 q')) * pow2 q' = m"
    unfolding i round_half_even_of_int using i pow2_pos[of q'] by (simp add: field_simps)
  have "pow2 (53 + q) \<le> pow2 1024" using q(2) by (intro pow2_mono) simp
  with mlt have "m < pow2 1024" by simp
  then show ?thesis using mpos r by (simp add: round64_def Let_def e_def[symmetric] q'_def[symmetric])
qed

lemma round64_of_int:
  assumes "0 \<le> n" "n < 2 ^ 53"
  shows "round64 s (of_int n) = Num s (of_int n)"
proof (cases "n = 0")
  case True
  then show ?thesis by (simp add: round64_def)
next
  case False
  with assms have "0 < n" by simp
  moreover have "(of_int n :: rat) = of_int n * pow2 0" by (simp add: pow2_def)
  ultimately show ?thesis using assms(2) by (intro round64_exact[where n = n and q = 0]) simp_all
qed

lemma round64_numeral:
  "numeral k < (9007199254740992 :: int) \<Longrightarrow> round64 s (numeral k) = Num s (numeral k)"
  using round64_of_int[of "numeral k" s] by simp

lemma round64_0: "round64 s 0 = Num s 0"
  by (simp add: round64_def)

lemma round64_1: "round64 s 1 = Num s 1"
  using round64_of_int[of 1 s] by simp

lemma round64_nearI:
  assumes "pow2 e \<le> m" "m < pow2 (e + 1)" "- 1022 \<le> e" "e < 1023"
    and r: "r = of_int n * pow2 (e - 52)"
    and near: "\<bar>m - r\<bar> < pow2 (e - 53)"
    and n: "n \<le> 2 ^ 53"
  shows "round64 s m = Num s r"
proof -
  have p: "pow2 (e - 53) = pow2 (e - 52) * (1 / 2)"
    using pow2_add[of "e - 52" "- 1"] by (simp add: pow2_def)
  have "m / pow2 (e - 52) - of_int n = (m - r) / pow2 (e - 52)"
    using pow2_pos[of "e - 52"] by (simp add: r field_simps)
  then have "\<bar>m / pow2 (e - 52) - of_int n\<bar> = \<bar>m - r\<bar> / pow2 (e - 52)"
    using pow2_pos[of "e - 52"] by (simp add: abs_divide)
  also have "\<dots> < 1 / 2"
    using near pow2_pos[of "e - 52"] by (simp add: p field_simps)
  finally have a: "\<bar>m / pow2 (e - 52) - of_int n\<bar> < 1 / 2" .
  have "(of_int n :: rat) \<le> of_int (2 ^ 53)" using n by (simp only: of_int_le_iff)
  then have "(of_int n :: rat) \<le> pow2 53" by (simp add: pow2_def)
  then have "of_int n * pow2 (e - 52) \<le> pow2 53 * pow2 (e - 52)"
    using pow2_pos[of "e - 52"] by (simp add: mult_right_mono)
  also have "\<dots> = pow2 (e + 1)" using pow2_add[of 53 "e - 52"] by (simp add: add.commute)
  also have "\<dots> < pow2 1024" using assms(4) by (intro pow2_strict_mono) simp
  finally have b: "of_int n * pow2 (e - 52) < pow2 1024" .
  show ?thesis unfolding r using assms(1,2,3) a b by (rule round64_near)
qed


lemma round_half_even_tie:
  assumes "\<bar>x - of_int n\<bar> = 1 / 2" "even n"
  shows "round_half_even x = n"
proof (cases "of_int n \<le> x")
  case True
  with assms(1) have x: "x = of_int n + 1 / 2" by simp
  then have "\<lfloor>x\<rfloor> = n" by (intro floor_unique) auto
  then show ?thesis using x assms(2) by (simp add: round_half_even_def Let_def)
next
  case False
  with assms(1) have x: "x = of_int n - 1 / 2" by simp
  then have f: "\<lfloor>x\<rfloor> = n - 1" by (intro floor_unique) auto
  have "x - of_int (n - 1) = 1 / 2" using x by simp
  then show ?thesis using f assms(2) by (simp add: round_half_even_def Let_def)
qed

lemma round64_tieI:
  assumes "pow2 e \<le> m" "m < pow2 (e + 1)" "- 1022 \<le> e" "e < 1023"
    and r: "r = of_int n * pow2 (e - 52)"
    and tie: "\<bar>m - r\<bar> = pow2 (e - 53)"
    and n: "even n" "n \<le> 2 ^ 53"
  shows "round64 s m = Num s r"
proof -
  have p: "pow2 (e - 53) = pow2 (e - 52) * (1 / 2)"
    using pow2_add[of "e - 52" "- 1"] by (simp add: pow2_def)
  have "m / pow2 (e - 52) - of_int n = (m - r) / pow2 (e - 52)"
    using pow2_pos[of "e - 52"] by (simp add: r field_simps)
  then have "\<bar>m / pow2 (e - 52) - of_int n\<bar> = \<bar>m - r\<bar> / pow2 (e - 52)"
    using pow2_pos[of "e - 52"] by (simp add: abs_divide)
  also have "\<dots> = 1 / 2"
    using pow2_pos[of "e - 52"] by (simp add: tie p)
  finally have "round_half_even (m / pow2 (e - 52)) = n" using n(1) by (rule round_half_even_tie)
  moreover have "0 < m" using assms(1) pow2_pos[of e] by simp
  moreover have "ilog2 m = e" using assms(1,2) by (rule ilog2_eqI)
  moreover have "max e (- 1022) = e" using assms(3) by simp
  moreover have "of_int n * pow2 (e - 52) < pow2 1024"
  proof -
    have "(of_int n :: rat) \<le> of_int (2 ^ 53)" using n(2) by (simp only: of_int_le_iff)
    then have "(of_int n :: rat) \<le> pow2 53" by (simp add: pow2_def)
    then have "of_int n * pow2 (e - 52) \<le> pow2 53 * pow2 (e - 52)"
      using pow2_pos[of "e - 52"] by (simp add: mult_right_mono)
    also have "\<dots> = pow2 (e + 1)" using pow2_add[of 53 "e - 52"] by (simp add: add.commute)
    also have "\<dots> < pow2 1024" using assms(4) by (intro pow2_strict_mono) simp
    finally show ?thesis .
  qed
  ultimately show ?thesis by (simp add: round64_def Let_def r)
qed


lemma round_half_even_ge_floor: "\<lfloor>x\<rfloor> \<le> round_half_even x"
  by (simp add: round_half_even_def Let_def)

lemma round64_overflow:
  assumes "pow2 1024 \<le> m"
  shows "round64 s m = Infinity s"
proof -
  have mpos: "0 < m" using assms pow2_pos [of 1024] by simp
  define e where "e = ilog2 m"
  from ilog2_bounds [OF mpos] have eb: "pow2 e \<le> m" "m < pow2 (e + 1)" by (auto simp: e_def)
  have e: "1024 \<le> e"
  proof (rule ccontr)
    assume "\<not> 1024 \<le> e"
    then have "pow2 (e + 1) \<le> pow2 1024" by (intro pow2_mono) simp
    with eb(2) assms show False by simp
  qed
  then have q: "max e (- 1022) - 52 = e - 52" by simp
  have pe: "pow2 e = pow2 52 * pow2 (e - 52)" using pow2_add [of 52 "e - 52"] by simp
  have "pow2 52 * pow2 (e - 52) \<le> m" using eb(1) pe by simp
  then have "pow2 52 \<le> m / pow2 (e - 52)" using pow2_pos [of "e - 52"] by (simp add: field_simps)
  then have "(of_int (2 ^ 52) :: rat) \<le> m / pow2 (e - 52)" by (simp add: pow2_def)
  then have "2 ^ 52 \<le> \<lfloor>m / pow2 (e - 52)\<rfloor>" by (simp only: le_floor_iff)
  then have "2 ^ 52 \<le> round_half_even (m / pow2 (e - 52))"
    using round_half_even_ge_floor [of "m / pow2 (e - 52)"] by (rule order_trans)
  then have "(of_int (2 ^ 52) :: rat) \<le> of_int (round_half_even (m / pow2 (e - 52)))"
    by (simp only: of_int_le_iff)
  then have "pow2 52 \<le> of_int (round_half_even (m / pow2 (e - 52)))" by (simp add: pow2_def)
  then have "pow2 52 * pow2 (e - 52) \<le> of_int (round_half_even (m / pow2 (e - 52))) * pow2 (e - 52)"
    using pow2_pos [of "e - 52"] by (simp add: mult_right_mono)
  moreover have "pow2 1024 \<le> pow2 e" using e by (rule pow2_mono)
  ultimately have "pow2 1024 \<le> of_int (round_half_even (m / pow2 (e - 52))) * pow2 (e - 52)"
    using pe by simp
  then show ?thesis using mpos by (simp add: round64_def Let_def e_def [symmetric] q)
qed

section \<open>Evaluating the parser and the validators\<close>

lemmas parse_simps = parseFloat_def parse_unsigned_def is_space_def is_digit_def digits_val_def
  digit_val_def parse_exponent_def pow10_def round64_numeral Let_def

lemmas cmp_simps = js_le_def js_ge_def js_gt_def

lemmas num_simps = js_sub_def round64_numeral round64_0 round64_1

lemma getField_simps:
  "getField fd ''carPrice'' = carPrice fd"
  "getField fd ''fuelEfficiency'' = fuelEfficiency fd"
  "getField fd ''fuelPrice'' = fuelPrice fd"
  "getField fd ''workingDaysPerMonth'' = workingDaysPerMonth fd"
  by (simp_all add: getField_def entries_def)

lemma checkRequired_unfold:
  "checkRequired fd (e, b) =
     (let (e1, b1) = (if carPrice fd = []
                      then (e(''carPrice'' \<mapsto> ''This field is required''), False) else (e, b));
          (e2, b2) = (if fuelEfficiency fd = []
                      then (e1(''fuelEfficiency'' \<mapsto> ''This field is required''), False)
                      else (e1, b1));
          (e3, b3) = (if fuelPrice fd = []
                      then (e2(''fuelPrice'' \<mapsto> ''This field is required''), False)
                      else (e2, b2))
      in (if workingDaysPerMonth fd = []
          then (e3(''workingDaysPerMonth'' \<mapsto> ''This field is required''), False)
          else (e3, b3)))"
  by (simp add: checkRequired_def requiredFields_def getField_simps Let_def)

section \<open>Facts about the handlers\<close>

lemma parseFloat_empty: "parseFloat [] = NaN"
  by (simp add: parseFloat_def)

lemma js_or_NaN: "isNaN x \<Longrightarrow> js_or x d = d"
  by (cases x) (simp_all add: js_or_def)

lemma js_eq_self: "js_eq x x = (\<not> isNaN x)"
  by (cases x) simp_all

lemma js_add_NaN_right: "js_add x NaN = NaN"
  by (cases x) simp_all

lemma calculateCosts_valid:
  "fst (validateForm st) \<Longrightarrow>
     result (calculateCosts st) = Some (computeResult (parsedValues (formData st)))"
  by (simp add: calculateCosts_def validateForm_def split: prod.splits)

section \<open>Reachable states and what validation guarantees\<close>

lemma numeric_input_empty: "numeric_input []"
  by (simp add: numeric_input_def)

lemma formData_validateForm: "formData (snd (validateForm st)) = formData st"
  by (simp add: validateForm_def split: prod.splits)

lemma formData_calculateCosts: "formData (calculateCosts st) = formData st"
  using formData_validateForm [of st]
  by (auto simp: calculateCosts_def split: prod.splits)

lemma all_numeric_setField:
  "all_numeric fd \<Longrightarrow> numeric_input v \<Longrightarrow> all_numeric (setField name v fd)"
  by (simp add: all_numeric_def entries_def setField_def)

lemma reachable_numeric: "reachable st \<Longrightarrow> all_numeric (formData st)"
proof (induction rule: reachable.induct)
  case initial
  show ?case by (simp add: initialState_def all_numeric_def entries_def numeric_input_empty)
next
  case (input st name v)
  then show ?case
    by (auto simp: handleInputChange_def numeric_input_empty intro: all_numeric_setField)
next
  case (calculate st)
  then show ?case by (simp add: formData_calculateCosts)
qed

lemma round64_not_NaN: "round64 s m \<noteq> NaN"
  by (simp add: round64_def Let_def)

lemma round64_sign: "round64 s m = Infinity s \<or> (\<exists>r. round64 s m = Num s r)"
  by (simp add: round64_def Let_def)

lemma numeric_input_parse:
  assumes "numeric_input v" "v \<noteq> []" "v \<noteq> ''.''"
  shows "\<exists>m. parseFloat v = round64 False m"
proof -
  obtain c t where v: "v = c # t" using assms(2) by (cases v) auto
  have c: "is_digit c \<or> c = CHR ''.''"
  proof (rule ccontr)
    assume n: "\<not> (is_digit c \<or> c = CHR ''.'')"
    then have "dropWhile is_digit v = v" by (simp add: v)
    with n assms(1) show False by (simp add: numeric_input_def v)
  qed
  then have ns: "\<not> is_space c" "c \<noteq> CHR ''-''" "c \<noteq> CHR ''+''" "c \<noteq> CHR ''I''"
    by (auto simp: is_digit_def is_space_def)
  then have p: "parseFloat v = parse_unsigned False v"
    by (simp add: parseFloat_def v)
  have i: "take 8 v \<noteq> ''Infinity''" using ns(4) by (simp add: v)
  have d: "takeWhile is_digit v \<noteq> [] \<or>
           (dropWhile is_digit v \<noteq> [] \<and> hd (dropWhile is_digit v) = CHR ''.''
            \<and> takeWhile is_digit (tl (dropWhile is_digit v)) \<noteq> [])"
  proof (cases "is_digit c")
    case True
    then show ?thesis by (simp add: v)
  next
    case False
    with c have cp: "c = CHR ''.''" by simp
    have t: "t \<noteq> []" using assms(3) v cp by auto
    have "dropWhile is_digit t = []" using assms(1) False cp by (simp add: numeric_input_def v)
    then have "takeWhile is_digit t = t"
      by (metis takeWhile_dropWhile_id append_Nil2)
    then have "takeWhile is_digit t \<noteq> []" using t by (cases t) auto
    with False cp show ?thesis by (simp add: v)
  qed
  show ?thesis
    unfolding p parse_unsigned_def Let_def using i d by auto
qed

lemma foldl_validate:
  "foldl (\<lambda>(newErrors, isValid) (name, v).
              let error = validateField name v
              in if error \<noteq> [] then (newErrors(name \<mapsto> error), False)
                 else (newErrors, isValid)) (e, b) xs = (e', b')
   \<Longrightarrow> b' = (b \<and> (\<forall>(name, v) \<in> set xs. validateField name v = []))"
proof (induction xs arbitrary: e b)
  case Nil
  then show ?case by simp
next
  case (Cons x xs)
  obtain name v where x: "x = (name, v)" by (cases x)
  show ?case
  proof (cases "validateField name v = []")
    case True
    with Cons.prems have "foldl (\<lambda>(newErrors, isValid) (name, v).
              let error = validateField name v
              in if error \<noteq> [] then (newErrors(name \<mapsto> error), False)
                 else (newErrors, isValid)) (e, b) xs = (e', b')"
      by (simp add: x)
    from Cons.IH [OF this] True show ?thesis by (simp add: x)
  next
    case False
    with Cons.prems have "foldl (\<lambda>(newErrors, isValid) (name, v).
              let error = validateField name v
              in if error \<noteq> [] then (newErrors(name \<mapsto> error), False)
                 else (newErrors, isValid)) (e(name \<mapsto> validateField name v), False) xs = (e', b')"
      by (simp add: x Let_def)
    from Cons.IH [OF this] False show ?thesis by (simp add: x)
  qed
qed

lemma validateForm_true:
  assumes "fst (validateForm st)"
  shows "(\<forall>(name, v) \<in> set (entries (formData st)). validateField name v = [])
       \<and> carPrice (formData st) \<noteq> [] \<and> fuelEfficiency (formData st) \<noteq> []
       \<and> fuelPrice (formData st) \<noteq> [] \<and> workingDaysPerMonth (formData st) \<noteq> []"
proof -
  obtain e b where va: "validateAll (formData st) = (e, b)" by (cases "validateAll (formData st)")
  obtain e' b' where cr: "checkRequired (formData st) (e, b) = (e', b')"
    by (cases "checkRequired (formData st) (e, b)")
  have b': "b'" using assms by (simp add: validateForm_def va cr)
  from cr b' have req: "b \<and> carPrice (formData st) \<noteq> [] \<and> fuelEfficiency (formData st) \<noteq> []
       \<and> fuelPrice (formData st) \<noteq> [] \<and> workingDaysPerMonth (formData st) \<noteq> []"
    unfolding checkRequired_unfold by (auto simp: Let_def split: if_splits)
  from va [unfolded validateAll_def] have "b = (True \<and> (\<forall>(name, v) \<in> set (entries (formData st)). validateField name v = []))"
    by (rule foldl_validate)
  with req show ?thesis by simp
qed

lemma validated_fuelEfficiency_positive:
  assumes "reachable st" "fst (validateForm st)" "fuelEfficiency (formData st) \<noteq> ''.''"
  shows "js_gt (fuelEfficiency (parsedValues (formData st))) (Num False 0)"
proof -
  let ?v = "fuelEfficiency (formData st)"
  from validateForm_true [OF assms(2)] have ok: "validateField ''fuelEfficiency'' ?v = []"
    and ne: "?v \<noteq> []"
    by (auto simp: entries_def)
  have "numeric_input ?v" using reachable_numeric [OF assms(1)] by (simp add: all_numeric_def entries_def)
  from numeric_input_parse [OF this ne assms(3)] obtain m where m: "parseFloat ?v = round64 False m" ..
  from ok ne have nle: "\<not> js_le (parseFloat ?v) (Num False 0)"
    by (auto simp: validateField_def Let_def split: if_splits)
  from round64_sign [of False m] have "js_gt (parseFloat ?v) (Num False 0) \<and> truthy (parseFloat ?v)"
    using nle unfolding m by (auto simp: js_le_def js_gt_def)
  then show ?thesis by (simp add: parsedValues_def js_or_def)
qed

lemma reachable_result_sum:
  assumes "reachable st" "result st = Some r"
  shows "js_add (js_add (js_add (fuelCosts r) (maintenanceCost r)) (insuranceCost r))
                (depreciationCost r) = totalCarCost r"
  using assms
proof (induction arbitrary: r rule: reachable.induct)
  case initial
  then show ?case by (simp add: initialState_def)
next
  case (input st name v)
  then show ?case by (auto simp: handleInputChange_def split: if_splits)
next
  case (calculate st)
  show ?case
  proof (cases "fst (validateForm st)")
    case True
    from calculateCosts_valid [OF this] calculate.prems
    have "r = computeResult (parsedValues (formData st))" by simp
    then show ?thesis by (simp add: computeResult_def Let_def)
  next
    case False
    then have "result (calculateCosts st) = result st"
      by (simp add: calculateCosts_def validateForm_def split: prod.splits)
    with calculate show ?thesis by simp
  qed
qed

lemma reachable_foldl:
  "reachable st \<Longrightarrow> reachable (foldl (\<lambda>st (name, v). handleInputChange name v st) st xs)"
proof (induction xs arbitrary: st)
  case Nil
  then show ?case by simp
next
  case (Cons x xs)
  obtain name v where x: "x = (name, v)" by (cases x)
  from Cons.prems have "reachable (handleInputChange name v st)" by (rule reachable.input)
  from Cons.IH [OF this] show ?case by (simp add: x)
qed

lemma reachable_typed_in: "reachable (typed_in fd)"
  unfolding typed_in_def using reachable.initial by (rule reachable_foldl)

lemma typed_in_formData:
  assumes "all_numeric fd"
  shows "formData (typed_in fd) = fd" and "result (typed_in fd) = None"
  using assms
  by (cases fd; simp add: typed_in_def entries_def all_numeric_def handleInputChange_def
      setField_def initialState_def)+

lemma validateForm_formData:
  assumes "formData st = formData st'"
  shows "fst (validateForm st) = fst (validateForm st')"
    and "errors (snd (validateForm st)) = errors (snd (validateForm st'))"
  using assms by (simp_all add: validateForm_def split: prod.splits)

section \<open>The example states\<close>

lemma example_numeric:
  "all_numeric scenarioForm" "all_numeric resaleForm" "all_numeric roundingForm"
  "all_numeric pointForm"
  by (simp_all add: all_numeric_def entries_def scenarioForm_def resaleForm_def roundingForm_def
      pointForm_def numeric_input_def is_digit_def)

lemma example_reachable:
  "reachable scenarioState" "reachable resaleState" "reachable roundingState"
  "reachable pointState"
  by (simp_all add: scenarioState_def resaleState_def roundingState_def pointState_def
      reachable_typed_in)

lemma foldl_zeros:
  "foldl (\<lambda>a c. 10 * a + digit_val c) a (replicate n (CHR ''0'')) = a * 10 ^ n"
  by (induction n arbitrary: a) (simp_all add: digit_val_def)

lemma hugeDigits_facts:
  "hugeDigits \<noteq> []"
  "numeric_input hugeDigits"
  "parseFloat hugeDigits = Infinity False"
proof -
  have d: "\<forall>c \<in> set hugeDigits. is_digit c" by (auto simp: hugeDigits_def is_digit_def)
  then have tw: "takeWhile is_digit hugeDigits = hugeDigits" and dw: "dropWhile is_digit hugeDigits = []"
    by simp_all
  show "hugeDigits \<noteq> []" by (simp add: hugeDigits_def)
  show "numeric_input hugeDigits" by (simp add: numeric_input_def dw)
  have "digits_val hugeDigits
          = foldl (\<lambda>a c. 10 * a + digit_val c) (10 * 0 + digit_val (CHR ''1''))
              (replicate 309 (CHR ''0''))"
    by (simp only: digits_val_def hugeDigits_def foldl_Cons)
  also have "\<dots> = (10 * 0 + digit_val (CHR ''1'')) * 10 ^ 309" by (rule foldl_zeros)
  also have "\<dots> = 10 ^ 309" by (simp add: digit_val_def)
  finally have v: "digits_val hugeDigits = 10 ^ 309" .
  have "pow2 1024 \<le> (10 ^ 309 :: rat)" by (simp add: pow2_def)
  then have r: "round64 False (10 ^ 309) = Infinity False" by (rule round64_overflow)
  have p: "parse_unsigned False hugeDigits = Infinity False"
    unfolding parse_unsigned_def Let_def tw dw
    using r by (simp add: v parse_exponent_def pow10_def) (simp add: hugeDigits_def)
  have "dropWhile is_space hugeDigits = hugeDigits" by (simp add: hugeDigits_def is_space_def)
  then show "parseFloat hugeDigits = Infinity False"
    unfolding parseFloat_def Let_def using p by (simp add: hugeDigits_def)
qed

lemma scenario_formData: "formData scenarioState = scenarioForm"
  unfolding scenarioState_def using example_numeric(1) by (rule typed_in_formData)

lemma resale_formData: "formData resaleState = resaleForm"
  unfolding resaleState_def using example_numeric(2) by (rule typed_in_formData)

lemma rounding_formData: "formData roundingState = roundingForm"
  unfolding roundingState_def using example_numeric(3) by (rule typed_in_formData)

lemma point_formData: "formData pointState = pointForm"
  unfolding pointState_def using example_numeric(4) by (rule typed_in_formData)

section \<open>The scenario, step by step\<close>

lemma scenario_parse:
  "parseFloat ''600000'' = Num False 600000"
  "parseFloat ''15'' = Num False 15"
  "parseFloat ''100'' = Num False 100"
  "parseFloat ''10'' = Num False 10"
  "parseFloat ''22'' = Num False 22"
  "parseFloat ''1000'' = Num False 1000"
  "parseFloat ''12000'' = Num False 12000"
  "parseFloat ''200000'' = Num False 200000"
  "parseFloat ''5'' = Num False 5"
  "parseFloat ''2000'' = Num False 2000"
  by (simp_all add: parse_simps)

lemma scenario_valid:
  "fst (validateForm scenarioState)" "errors (snd (validateForm scenarioState)) = Map.empty"
  by (simp_all add: validateForm_def validateAll_def checkRequired_unfold entries_def scenario_formData
      scenarioForm_def validateField_def scenario_parse cmp_simps Let_def)

lemma scenario_values:
  "parsedValues scenarioForm =
     \<lparr>carPrice = Num False 600000, fuelEfficiency = Num False 15, fuelPrice = Num False 100,
      distanceToWork = Num False 10, workingDaysPerMonth = Num False 22,
      maintenanceCosts = Num False 1000, insuranceCosts = Num False 12000,
      resaleValue = Num False 200000, resaleYears = Num False 5,
      publicTransportCosts = Num False 2000\<rparr>"
  by (simp add: parsedValues_def scenarioForm_def scenario_parse js_or_def)

lemma scenario_fuel_quotient:
  "js_div (Num False 440) (Num False 15) = Num False (8256599316845909 / 281474976710656)"
proof -
  have "round64 False (440 / 15) = Num False (8256599316845909 / 281474976710656)"
    by (rule round64_nearI [where e = 4 and n = 8256599316845909]) (simp_all add: pow2_def)
  then show ?thesis by simp
qed

lemma scenario_fuel:
  "js_mul (Num False (8256599316845909 / 281474976710656)) (Num False 100)
     = Num False (3225234108142933 / 1099511627776)"
proof -
  have "round64 False ((8256599316845909 / 281474976710656) * 100)
          = Num False (3225234108142933 / 1099511627776)"
    by (rule round64_nearI [where e = 11 and n = 6450468216285866]) (simp_all add: pow2_def)
  then show ?thesis by simp
qed

lemma scenario_depreciation:
  "js_div (Num False 400000) (Num False 60) = Num False (7330077518506667 / 1099511627776)"
proof -
  have "round64 False (400000 / 60) = Num False (7330077518506667 / 1099511627776)"
    by (rule round64_nearI [where e = 12 and n = 7330077518506667]) (simp_all add: pow2_def)
  then show ?thesis by simp
qed

lemma scenario_sum1:
  "js_add (Num False (3225234108142933 / 1099511627776)) (Num False 1000)
     = Num False (4324745735918933 / 1099511627776)"
proof -
  have "round64 False (4324745735918933 / 1099511627776)
          = Num False (4324745735918933 / 1099511627776)"
    by (rule round64_exact [where n = 4324745735918933 and q = "- 40"]) (simp_all add: pow2_def)
  then show ?thesis by simp
qed

lemma scenario_sum2:
  "js_add (Num False (4324745735918933 / 1099511627776)) (Num False 1000)
     = Num False (5424257363694933 / 1099511627776)"
proof -
  have "round64 False (5424257363694933 / 1099511627776)
          = Num False (5424257363694933 / 1099511627776)"
    by (rule round64_exact [where n = 5424257363694933 and q = "- 40"]) (simp_all add: pow2_def)
  then show ?thesis by simp
qed

lemma scenario_sum3:
  "js_add (Num False (5424257363694933 / 1099511627776))
          (Num False (7330077518506667 / 1099511627776)) = Num False 11600"
  by (simp add: num_simps)

lemma CO2_PER_KM_value: "CO2_PER_KM = Num False (3638908498915361 / 9007199254740992)"
  unfolding CO2_PER_KM_def
  by (rule round64_nearI [where e = "- 2" and n = 7277816997830722]) (simp_all add: pow2_def)

lemma scenario_emissions1:
  "js_mul (Num False 5280) (Num False (3638908498915361 / 9007199254740992))
     = Num False (4690780486883083 / 2199023255552)"
proof -
  have "round64 False (5280 * (3638908498915361 / 9007199254740992))
          = Num False (4690780486883083 / 2199023255552)"
    by (rule round64_nearI [where e = 11 and n = 4690780486883083]) (simp_all add: pow2_def)
  then show ?thesis by simp
qed

lemma scenario_emissions2:
  "js_div (Num False (4690780486883083 / 2199023255552)) (Num False 1000)
     = Num False (4803359218568277 / 2251799813685248)"
proof -
  have "round64 False ((4690780486883083 / 2199023255552) / 1000)
          = Num False (4803359218568277 / 2251799813685248)"
    by (rule round64_nearI [where e = 1 and n = 4803359218568277]) (simp_all add: pow2_def)
  then show ?thesis by simp
qed

lemma scenario_emissions:
  "calculateEmissions (Num False 440) = Num False (4803359218568277 / 2251799813685248)"
proof -
  have "js_mul (Num False 440) (Num False 12) = Num False 5280" by (simp add: num_simps)
  then show ?thesis
    by (simp only: calculateEmissions_def CO2_PER_KM_value scenario_emissions1 scenario_emissions2)
qed

lemma scenario_result:
  "computeResult (parsedValues scenarioForm) =
     \<lparr>totalCarCost = Num False 11600, totalCommuteCost = Num False 2000,
      monthlySavings = Num True 9600, yearlySavings = Num True 115200,
      fuelCosts = Num False (3225234108142933 / 1099511627776),
      maintenanceCost = Num False 1000, insuranceCost = Num False 1000,
      depreciationCost = Num False (7330077518506667 / 1099511627776),
      yearlyEmissions = Num False (4803359218568277 / 2251799813685248)\<rparr>"
proof -
  have d: "js_mul (js_mul (Num False 10) (Num False 2)) (Num False 22) = Num False 440"
    by (simp add: num_simps)
  have td: "js_sub (Num False 600000) (Num False 200000) = Num False 400000"
    by (simp add: num_simps)
  have y: "js_mul (Num False 5) (Num False 12) = Num False 60" by (simp add: num_simps)
  have i: "js_div (Num False 12000) (Num False 12) = Num False 1000" by (simp add: num_simps)
  have ms: "js_sub (Num False 2000) (Num False 11600) = Num True 9600" by (simp add: num_simps)
  have yc: "js_mul (Num False 11600) (Num False 12) = Num False 139200" by (simp add: num_simps)
  have yp: "js_mul (Num False 2000) (Num False 12) = Num False 24000" by (simp add: num_simps)
  have ys: "js_sub (Num False 24000) (Num False 139200) = Num True 115200" by (simp add: num_simps)
  show ?thesis
    unfolding computeResult_def scenario_values Let_def
    by (simp only: InputSet.select_convs d td y i scenario_fuel_quotient scenario_fuel scenario_depreciation
        scenario_sum1 scenario_sum2 scenario_sum3 scenario_emissions ms yc yp ys)
qed

section \<open>Required fields\<close>

text \<open>
  C5. When the required field \<open>carPrice\<close> is empty, \<open>validateForm\<close> returns false and
  records the message \<open>This field is required\<close> for \<open>carPrice\<close>; \<open>calculateCosts\<close>
  then returns early: its only effect is the new error mapping, and the stored result
  (present or absent) and the form data are what they were.
\<close>

theorem required_carPrice_blocks_calculation:
  assumes "carPrice (formData st) = []"
  shows "fst (validateForm st) = False
       \<and> errors (snd (validateForm st)) ''carPrice'' = Some ''This field is required''
       \<and> calculateCosts st = snd (validateForm st)
       \<and> result (calculateCosts st) = result st
       \<and> formData (calculateCosts st) = formData st"
proof -
  obtain e b where va: "validateAll (formData st) = (e, b)" by (cases "validateAll (formData st)")
  obtain e' b' where cr: "checkRequired (formData st) (e, b) = (e', b')"
    by (cases "checkRequired (formData st) (e, b)")
  have "b' = False \<and> e' ''carPrice'' = Some ''This field is required''"
    using cr assms unfolding checkRequired_unfold
    by (auto simp: Let_def split: if_splits)
  then show ?thesis
    by (simp add: validateForm_def calculateCosts_def va cr)
qed

lemma cleared_state:
  "reachable clearedState" "carPrice (formData clearedState) = []"
  "result clearedState = Some (computeResult (parsedValues scenarioForm))"
proof -
  have "reachable (calculateCosts scenarioState)"
    using example_reachable(1) by (rule reachable.calculate)
  then show "reachable clearedState" unfolding clearedState_def by (rule reachable.input)
  show "carPrice (formData clearedState) = []"
    by (simp add: clearedState_def handleInputChange_def setField_def)
  have "result (calculateCosts scenarioState) = Some (computeResult (parsedValues scenarioForm))"
    using calculateCosts_valid [OF scenario_valid(1)] by (simp only: scenario_formData)
  then show "result clearedState = Some (computeResult (parsedValues scenarioForm))"
    by (simp add: clearedState_def handleInputChange_def)
qed

theorem required_carPrice_blocks_calculation_witness:
  "reachable clearedState
   \<and> carPrice (formData clearedState) = []
   \<and> totalCarCost (the (result clearedState)) = Num False 11600
   \<and> fst (validateForm clearedState) = False
   \<and> errors (snd (validateForm clearedState)) ''carPrice'' = Some ''This field is required''
   \<and> calculateCosts clearedState = snd (validateForm clearedState)
   \<and> result (calculateCosts clearedState) = result clearedState
   \<and> totalCarCost (the (result (calculateCosts clearedState))) = Num False 11600"
proof -
  have h: "carPrice (formData clearedState) = []" by (rule cleared_state)
  have t: "totalCarCost (the (result clearedState)) = Num False 11600"
    by (simp add: cleared_state scenario_result)
  note c = required_carPrice_blocks_calculation [OF h]
  from c have "result (calculateCosts clearedState) = result clearedState" by blast
  then have "totalCarCost (the (result (calculateCosts clearedState))) = Num False 11600"
    using t by (simp only:)
  with h t c cleared_state(1) show ?thesis by blast
qed

section \<open>The working-days validator\<close>

text \<open>
  C6. For every nonempty value of the field \<open>workingDaysPerMonth\<close>, \<open>validateField\<close>
  returns \<open>Working days must be between 1 and 31\<close> exactly when the parsed value is
  \<open>\<le> 0\<close> or \<open>> 31\<close> (as JavaScript compares, so a value that parses to NaN passes),
  and the empty string otherwise. It rejects \<open>0\<close> and \<open>32\<close> and accepts \<open>1\<close> and
  \<open>31\<close>.
\<close>

theorem validateField_workingDays:
  "(\<forall>v. v \<noteq> [] \<longrightarrow>
      validateField ''workingDaysPerMonth'' v =
        (if js_le (parseFloat v) (Num False 0) \<or> js_gt (parseFloat v) (Num False 31)
         then ''Working days must be between 1 and 31'' else []))
   \<and> validateField ''workingDaysPerMonth'' ''0'' = ''Working days must be between 1 and 31''
   \<and> validateField ''workingDaysPerMonth'' ''32'' = ''Working days must be between 1 and 31''
   \<and> validateField ''workingDaysPerMonth'' ''1'' = []
   \<and> validateField ''workingDaysPerMonth'' ''31'' = []"
proof -
  have p0: "parseFloat ''0'' = Num False 0" by (simp add: parse_simps round64_0)
  have p32: "parseFloat ''32'' = Num False 32" by (simp add: parse_simps)
  have p1: "parseFloat ''1'' = Num False 1" by (simp add: parse_simps round64_1)
  have p31: "parseFloat ''31'' = Num False 31" by (simp add: parse_simps)
  show ?thesis
    by (simp add: validateField_def Let_def p0 p32 p1 p31 cmp_simps)
qed

theorem validateField_workingDays_witness:
  "''22'' \<noteq> [] \<and> validateField ''workingDaysPerMonth'' ''22'' = []
   \<and> ''45.5'' \<noteq> [] \<and> validateField ''workingDaysPerMonth'' ''45.5''
        = ''Working days must be between 1 and 31''"
proof -
  have p22: "parseFloat ''22'' = Num False 22" by (simp add: parse_simps)
  have "round64 False (91 / 2) = Num False (91 / 2)"
    by (rule round64_exact [where n = 91 and q = "- 1"]) (simp_all add: pow2_def)
  then have p45: "parseFloat ''45.5'' = Num False (91 / 2)" by (simp add: parse_simps)
  from validateField_workingDays have
    "\<forall>v. v \<noteq> [] \<longrightarrow>
      validateField ''workingDaysPerMonth'' v =
        (if js_le (parseFloat v) (Num False 0) \<or> js_gt (parseFloat v) (Num False 31)
         then ''Working days must be between 1 and 31'' else [])" by (rule conjunct1)
  then have
    "validateField ''workingDaysPerMonth'' ''22'' =
        (if js_le (parseFloat ''22'') (Num False 0) \<or> js_gt (parseFloat ''22'') (Num False 31)
         then ''Working days must be between 1 and 31'' else [])"
    "validateField ''workingDaysPerMonth'' ''45.5'' =
        (if js_le (parseFloat ''45.5'') (Num False 0) \<or> js_gt (parseFloat ''45.5'') (Num False 31)
         then ''Working days must be between 1 and 31'' else [])"
    by simp_all
  then show ?thesis by (simp add: p22 p45 cmp_simps)
qed

section \<open>The cost breakdown\<close>

lemma overflow_parse:
  "parseFloat ''15'' = Num False 15"
  "parseFloat ''100'' = Num False 100"
  "parseFloat ''10'' = Num False 10"
  "parseFloat ''22'' = Num False 22"
  by (simp_all add: parse_simps)

lemma overflow_numeric: "all_numeric overflowForm"
  by (simp add: all_numeric_def entries_def overflowForm_def hugeDigits_facts)
     (simp add: numeric_input_def is_digit_def)

lemma overflow_formData: "formData overflowState = overflowForm"
  unfolding overflowState_def using overflow_numeric by (rule typed_in_formData)

lemma overflow_valid:
  "fst (validateForm overflowState)" "errors (snd (validateForm overflowState)) = Map.empty"
  by (simp_all add: validateForm_def validateAll_def checkRequired_unfold entries_def overflow_formData
      overflowForm_def validateField_def overflow_parse hugeDigits_facts cmp_simps Let_def)

lemma overflow_values:
  "carPrice (parsedValues overflowForm) = Infinity False"
  "resaleValue (parsedValues overflowForm) = Infinity False"
  by (simp_all add: parsedValues_def overflowForm_def hugeDigits_facts js_or_def)

lemma overflow_depreciation: "depreciationCost (computeResult (parsedValues overflowForm)) = NaN"
  by (simp add: computeResult_def Let_def overflow_values js_sub_def)

lemma overflow_total: "totalCarCost (computeResult (parsedValues overflowForm)) = NaN"
proof -
  have "totalCarCost (computeResult (parsedValues overflowForm))
          = js_add (js_add (js_add (fuelCosts (computeResult (parsedValues overflowForm)))
                                   (maintenanceCost (computeResult (parsedValues overflowForm))))
                           (insuranceCost (computeResult (parsedValues overflowForm))))
                   (depreciationCost (computeResult (parsedValues overflowForm)))"
    by (simp add: computeResult_def Let_def)
  then show ?thesis by (simp only: overflow_depreciation js_add_NaN_right)
qed

text \<open>
  C1, as stated, fails when the total is NaN. A car price and a resale value of 310
  digits pass validation and both parse to \<open>Infinity\<close>; their difference is NaN, so
  the stored depreciation and the stored total are NaN, and the comparison of the
  sum of the four components with \<open>totalCarCost\<close> is false, as every comparison with
  NaN is.
\<close>

theorem components_sum_counterexample:
  "reachable overflowState
   \<and> fst (validateForm overflowState)
   \<and> errors (snd (validateForm overflowState)) = Map.empty
   \<and> result (calculateCosts overflowState) = Some (computeResult (parsedValues overflowForm))
   \<and> carPrice (parsedValues overflowForm) = Infinity False
   \<and> resaleValue (parsedValues overflowForm) = Infinity False
   \<and> depreciationCost (computeResult (parsedValues overflowForm)) = NaN
   \<and> totalCarCost (computeResult (parsedValues overflowForm)) = NaN
   \<and> \<not> js_eq (js_add (js_add (js_add (fuelCosts (computeResult (parsedValues overflowForm)))
                                      (maintenanceCost (computeResult (parsedValues overflowForm))))
                              (insuranceCost (computeResult (parsedValues overflowForm))))
                      (depreciationCost (computeResult (parsedValues overflowForm))))
               (totalCarCost (computeResult (parsedValues overflowForm)))"
proof -
  have re: "reachable overflowState" unfolding overflowState_def by (rule reachable_typed_in)
  have r: "result (calculateCosts overflowState) = Some (computeResult (parsedValues overflowForm))"
    using calculateCosts_valid [OF overflow_valid(1)] by (simp only: overflow_formData)
  have n: "\<not> js_eq (js_add (js_add (js_add (fuelCosts (computeResult (parsedValues overflowForm)))
                                      (maintenanceCost (computeResult (parsedValues overflowForm))))
                              (insuranceCost (computeResult (parsedValues overflowForm))))
                      (depreciationCost (computeResult (parsedValues overflowForm))))
               (totalCarCost (computeResult (parsedValues overflowForm)))"
    by (simp only: overflow_total overflow_depreciation js_add_NaN_right js_eq.simps simp_thms)
  from re overflow_valid r overflow_values overflow_depreciation overflow_total n
  show ?thesis by blast
qed

text \<open>
  C1, amended. Every result that a successful calculation produces holds the very
  summands of its total: adding \<open>fuelCosts\<close>, \<open>maintenanceCost\<close>,
  \<open>insuranceCost\<close> and \<open>depreciationCost\<close>, left to right as JavaScript does,
  gives the same Number as the stored \<open>totalCarCost\<close>, and the comparison of that
  sum with \<open>totalCarCost\<close> is true exactly when the total is not NaN.
\<close>

theorem components_sum_to_total:
  assumes "fst (validateForm st)"
  shows "\<exists>r. result (calculateCosts st) = Some r
           \<and> js_add (js_add (js_add (fuelCosts r) (maintenanceCost r)) (insuranceCost r))
                     (depreciationCost r) = totalCarCost r
           \<and> (js_eq (js_add (js_add (js_add (fuelCosts r) (maintenanceCost r)) (insuranceCost r))
                            (depreciationCost r)) (totalCarCost r)
                \<longleftrightarrow> \<not> isNaN (totalCarCost r))"
proof -
  let ?r = "computeResult (parsedValues (formData st))"
  have r: "result (calculateCosts st) = Some ?r" using assms by (rule calculateCosts_valid)
  have s: "js_add (js_add (js_add (fuelCosts ?r) (maintenanceCost ?r)) (insuranceCost ?r))
                  (depreciationCost ?r) = totalCarCost ?r"
    by (simp add: computeResult_def Let_def)
  show ?thesis using r s js_eq_self [of "totalCarCost ?r"] by simp
qed

theorem components_sum_to_total_witness:
  "fst (validateForm scenarioState)
   \<and> totalCarCost (the (result (calculateCosts scenarioState))) = Num False 11600
   \<and> \<not> isNaN (totalCarCost (the (result (calculateCosts scenarioState))))
   \<and> js_add (js_add (js_add (fuelCosts (the (result (calculateCosts scenarioState))))
                            (maintenanceCost (the (result (calculateCosts scenarioState)))))
                    (insuranceCost (the (result (calculateCosts scenarioState)))))
            (depreciationCost (the (result (calculateCosts scenarioState)))) = Num False 11600
   \<and> js_eq (js_add (js_add (js_add (fuelCosts (the (result (calculateCosts scenarioState))))
                                   (maintenanceCost (the (result (calculateCosts scenarioState)))))
                           (insuranceCost (the (result (calculateCosts scenarioState)))))
                   (depreciationCost (the (result (calculateCosts scenarioState)))))
            (totalCarCost (the (result (calculateCosts scenarioState))))"
proof -
  have v: "fst (validateForm scenarioState)" by (rule scenario_valid)
  have f: "formData scenarioState = scenarioForm" by (rule scenario_formData)
  have t: "totalCarCost (the (result (calculateCosts scenarioState))) = Num False 11600"
    by (simp add: calculateCosts_valid [OF v] f scenario_result)
  from components_sum_to_total [OF v] obtain r where
    r: "result (calculateCosts scenarioState) = Some r"
    and s: "js_add (js_add (js_add (fuelCosts r) (maintenanceCost r)) (insuranceCost r))
                   (depreciationCost r) = totalCarCost r"
    and q: "js_eq (js_add (js_add (js_add (fuelCosts r) (maintenanceCost r)) (insuranceCost r))
                            (depreciationCost r)) (totalCarCost r)
                \<longleftrightarrow> \<not> isNaN (totalCarCost r)"
    by blast
  from r have e: "the (result (calculateCosts scenarioState)) = r" by simp
  have t': "totalCarCost r = Num False 11600" using t by (simp only: e)
  then have n: "\<not> isNaN (totalCarCost r)" by simp
  with q have j: "js_eq (js_add (js_add (js_add (fuelCosts r) (maintenanceCost r)) (insuranceCost r))
                            (depreciationCost r)) (totalCarCost r)" by blast
  show ?thesis unfolding e using v t' n s j by simp
qed

section \<open>The scenario of the specification\<close>

text \<open>
  C3. For the input set carPrice 600000, fuelEfficiency 15, fuelPrice 100,
  distanceToWork 10, workingDaysPerMonth 22, maintenanceCosts 1000, insuranceCosts
  12000, resaleValue 200000, resaleYears 5, publicTransportCosts 2000, the form is
  valid and the engine computes: monthly distance 440; fuel cost \<open>440 / 15 * 100\<close>;
  depreciation \<open>(600000 - 200000) / 60\<close>; car cost, the sum of fuel, 1000,
  \<open>12000 / 12\<close> and depreciation, which is exactly 11600; savings
  \<open>2000 - 11600 = -9600\<close>; emissions \<open>(440 * 12 * 0.404) / 1000\<close>. Each is the
  binary64 value of that expression, given here as an exact fraction
  (2933.33..., 6666.66..., 2.13312...).
\<close>

theorem scenario_calculation:
  "fst (validateForm scenarioState)
   \<and> result (calculateCosts scenarioState) =
       Some \<lparr>totalCarCost = Num False 11600, totalCommuteCost = Num False 2000,
             monthlySavings = Num True 9600, yearlySavings = Num True 115200,
             fuelCosts = Num False (3225234108142933 / 1099511627776),
             maintenanceCost = Num False 1000, insuranceCost = Num False 1000,
             depreciationCost = Num False (7330077518506667 / 1099511627776),
             yearlyEmissions = Num False (4803359218568277 / 2251799813685248)\<rparr>
   \<and> js_mul (js_mul (distanceToWork (parsedValues scenarioForm)) (Num False 2))
             (workingDaysPerMonth (parsedValues scenarioForm)) = Num False 440
   \<and> js_mul (js_div (Num False 440) (Num False 15)) (Num False 100)
       = Num False (3225234108142933 / 1099511627776)
   \<and> js_div (js_sub (Num False 600000) (Num False 200000)) (Num False 60)
       = Num False (7330077518506667 / 1099511627776)
   \<and> js_add (js_add (js_add (Num False (3225234108142933 / 1099511627776)) (Num False 1000))
                     (js_div (Num False 12000) (Num False 12)))
             (Num False (7330077518506667 / 1099511627776)) = Num False 11600
   \<and> js_sub (Num False 2000) (Num False 11600) = Num True 9600
   \<and> js_div (js_mul (js_mul (Num False 440) (Num False 12)) CO2_PER_KM) (Num False 1000)
       = Num False (4803359218568277 / 2251799813685248)"
proof -
  have v: "fst (validateForm scenarioState)" by (rule scenario_valid)
  have f: "formData scenarioState = scenarioForm" by (rule scenario_formData)
  have r: "result (calculateCosts scenarioState) = Some (computeResult (parsedValues scenarioForm))"
    using calculateCosts_valid [OF v] by (simp only: f)
  have d: "js_mul (js_mul (distanceToWork (parsedValues scenarioForm)) (Num False 2))
             (workingDaysPerMonth (parsedValues scenarioForm)) = Num False 440"
    by (simp add: scenario_values num_simps)
  have fu: "js_mul (js_div (Num False 440) (Num False 15)) (Num False 100)
       = Num False (3225234108142933 / 1099511627776)"
    by (simp only: scenario_fuel_quotient scenario_fuel)
  have td: "js_sub (Num False 600000) (Num False 200000) = Num False 400000"
    by (simp add: num_simps)
  have de: "js_div (js_sub (Num False 600000) (Num False 200000)) (Num False 60)
       = Num False (7330077518506667 / 1099511627776)"
    by (simp only: td scenario_depreciation)
  have i: "js_div (Num False 12000) (Num False 12) = Num False 1000" by (simp add: num_simps)
  have su: "js_add (js_add (js_add (Num False (3225234108142933 / 1099511627776)) (Num False 1000))
                     (js_div (Num False 12000) (Num False 12)))
             (Num False (7330077518506667 / 1099511627776)) = Num False 11600"
    by (simp only: i scenario_sum1 scenario_sum2 scenario_sum3)
  have ms: "js_sub (Num False 2000) (Num False 11600) = Num True 9600" by (simp add: num_simps)
  have em: "js_div (js_mul (js_mul (Num False 440) (Num False 12)) CO2_PER_KM) (Num False 1000)
       = Num False (4803359218568277 / 2251799813685248)"
    using scenario_emissions by (simp only: calculateEmissions_def)
  show ?thesis
    using v d fu de su ms em by (simp only: r scenario_result simp_thms)
qed

section \<open>Defaults for missing values\<close>

text \<open>
  C8. At calculation time a field whose raw string is missing (the empty string, which
  parses to NaN) or does not parse to a number (the result is NaN) is replaced by 0,
  and \<open>resaleYears\<close> by 1; the record of these values is what the engine computes
  the result from.
\<close>

theorem defaults_at_calculation:
  "parseFloat [] = NaN
   \<and> (isNaN (parseFloat (carPrice fd)) \<longrightarrow> carPrice (parsedValues fd) = Num False 0)
   \<and> (isNaN (parseFloat (fuelEfficiency fd)) \<longrightarrow> fuelEfficiency (parsedValues fd) = Num False 0)
   \<and> (isNaN (parseFloat (fuelPrice fd)) \<longrightarrow> fuelPrice (parsedValues fd) = Num False 0)
   \<and> (isNaN (parseFloat (distanceToWork fd)) \<longrightarrow> distanceToWork (parsedValues fd) = Num False 0)
   \<and> (isNaN (parseFloat (workingDaysPerMonth fd)) \<longrightarrow>
        workingDaysPerMonth (parsedValues fd) = Num False 0)
   \<and> (isNaN (parseFloat (maintenanceCosts fd)) \<longrightarrow> maintenanceCosts (parsedValues fd) = Num False 0)
   \<and> (isNaN (parseFloat (insuranceCosts fd)) \<longrightarrow> insuranceCosts (parsedValues fd) = Num False 0)
   \<and> (isNaN (parseFloat (resaleValue fd)) \<longrightarrow> resaleValue (parsedValues fd) = Num False 0)
   \<and> (isNaN (parseFloat (resaleYears fd)) \<longrightarrow> resaleYears (parsedValues fd) = Num False 1)
   \<and> (isNaN (parseFloat (publicTransportCosts fd)) \<longrightarrow>
        publicTransportCosts (parsedValues fd) = Num False 0)
   \<and> (\<forall>st. formData st = fd \<and> fst (validateForm st) \<longrightarrow>
        result (calculateCosts st) = Some (computeResult (parsedValues fd)))"
  using calculateCosts_valid by (auto simp: parsedValues_def js_or_NaN parseFloat_empty)

lemma resale_parse:
  "parseFloat ''100000'' = Num False 100000"
  "parseFloat ''10'' = Num False 10"
  "parseFloat ''100'' = Num False 100"
  "parseFloat ''5'' = Num False 5"
  "parseFloat ''20'' = Num False 20"
  "parseFloat ''160000'' = Num False 160000"
  "parseFloat ''500'' = Num False 500"
  by (simp_all add: parse_simps)

lemma resale_valid:
  "fst (validateForm resaleState)" "errors (snd (validateForm resaleState)) = Map.empty"
  by (simp_all add: validateForm_def validateAll_def checkRequired_unfold entries_def resale_formData
      resaleForm_def validateField_def resale_parse cmp_simps Let_def)

lemma resale_values:
  "parsedValues resaleForm =
     \<lparr>carPrice = Num False 100000, fuelEfficiency = Num False 10, fuelPrice = Num False 100,
      distanceToWork = Num False 5, workingDaysPerMonth = Num False 20,
      maintenanceCosts = Num False 0, insuranceCosts = Num False 0,
      resaleValue = Num False 160000, resaleYears = Num False 5,
      publicTransportCosts = Num False 500\<rparr>"
  by (simp add: parsedValues_def resaleForm_def resale_parse parseFloat_empty js_or_def)

theorem defaults_at_calculation_witness:
  "isNaN (parseFloat (maintenanceCosts resaleForm))
   \<and> maintenanceCosts (parsedValues resaleForm) = Num False 0
   \<and> isNaN (parseFloat (resaleYears (resaleForm\<lparr>resaleYears := ''.''\<rparr>)))
   \<and> resaleYears (parsedValues (resaleForm\<lparr>resaleYears := ''.''\<rparr>)) = Num False 1
   \<and> formData resaleState = resaleForm \<and> fst (validateForm resaleState)
   \<and> result (calculateCosts resaleState) = Some (computeResult (parsedValues resaleForm))"
proof -
  have a: "isNaN (parseFloat (maintenanceCosts resaleForm))"
    by (simp add: resaleForm_def parseFloat_empty)
  have b: "isNaN (parseFloat (resaleYears (resaleForm\<lparr>resaleYears := ''.''\<rparr>)))"
    by (simp add: parse_simps)
  have c: "formData resaleState = resaleForm \<and> fst (validateForm resaleState)"
    by (simp add: resale_valid resale_formData)
  note t = defaults_at_calculation [of resaleForm]
  note u = defaults_at_calculation [of "resaleForm\<lparr>resaleYears := ''.''\<rparr>"]
  from t a have a': "maintenanceCosts (parsedValues resaleForm) = Num False 0" by blast
  from u b have b': "resaleYears (parsedValues (resaleForm\<lparr>resaleYears := ''.''\<rparr>)) = Num False 1"
    by blast
  from t c have c': "result (calculateCosts resaleState) = Some (computeResult (parsedValues resaleForm))"
    by blast
  from a a' b b' c c' show ?thesis by blast
qed

section \<open>Depreciation\<close>

text \<open>
  C9. Monthly depreciation is \<open>(carPrice - resaleValue) / (resaleYears * 12)\<close> on the
  parsed values. A successful calculation stores exactly that Number as
  \<open>depreciationCost\<close>, whatever its sign, and the stored total and both savings
  figures are computed from it: there is no clamping or adjustment on the way. (The
  witness is a car resold above its price: depreciation -1000 is stored, the total is
  1000 with a fuel cost of 2000, and validation raises no message.)
\<close>

theorem depreciation_stored_unmodified:
  assumes "fst (validateForm st)"
  shows "\<exists>r. result (calculateCosts st) = Some r
     \<and> depreciationCost r =
         js_div (js_sub (carPrice (parsedValues (formData st))) (resaleValue (parsedValues (formData st))))
                (js_mul (resaleYears (parsedValues (formData st))) (Num False 12))
     \<and> totalCarCost r =
         js_add (js_add (js_add (fuelCosts r) (maintenanceCosts (parsedValues (formData st))))
                        (js_div (insuranceCosts (parsedValues (formData st))) (Num False 12)))
                (depreciationCost r)
     \<and> monthlySavings r = js_sub (publicTransportCosts (parsedValues (formData st))) (totalCarCost r)
     \<and> yearlySavings r =
         js_sub (js_mul (publicTransportCosts (parsedValues (formData st))) (Num False 12))
                (js_mul (totalCarCost r) (Num False 12))"
  using calculateCosts_valid [OF assms] by (simp add: computeResult_def Let_def)

theorem depreciation_stored_unmodified_witness:
  "fst (validateForm resaleState)
   \<and> errors (snd (validateForm resaleState)) = Map.empty
   \<and> depreciationCost (the (result (calculateCosts resaleState))) = Num True 1000
   \<and> fuelCosts (the (result (calculateCosts resaleState))) = Num False 2000
   \<and> totalCarCost (the (result (calculateCosts resaleState))) = Num False 1000
   \<and> monthlySavings (the (result (calculateCosts resaleState))) = Num True 500
   \<and> yearlySavings (the (result (calculateCosts resaleState))) = Num True 6000"
proof -
  have v: "fst (validateForm resaleState)" by (rule resale_valid)
  have e: "errors (snd (validateForm resaleState)) = Map.empty" by (rule resale_valid)
  have f: "formData resaleState = resaleForm" by (rule resale_formData)
  from depreciation_stored_unmodified [OF v] obtain r where
    r: "result (calculateCosts resaleState) = Some r"
    and d: "depreciationCost r =
         js_div (js_sub (carPrice (parsedValues resaleForm)) (resaleValue (parsedValues resaleForm)))
                (js_mul (resaleYears (parsedValues resaleForm)) (Num False 12))"
    and t: "totalCarCost r =
         js_add (js_add (js_add (fuelCosts r) (maintenanceCosts (parsedValues resaleForm)))
                        (js_div (insuranceCosts (parsedValues resaleForm)) (Num False 12)))
                (depreciationCost r)"
    and m: "monthlySavings r = js_sub (publicTransportCosts (parsedValues resaleForm)) (totalCarCost r)"
    and y: "yearlySavings r =
         js_sub (js_mul (publicTransportCosts (parsedValues resaleForm)) (Num False 12))
                (js_mul (totalCarCost r) (Num False 12))"
    unfolding f by blast
  have r': "r = computeResult (parsedValues resaleForm)"
    using r calculateCosts_valid [OF v] by (simp add: f)
  have fu: "fuelCosts r = Num False 2000"
    by (simp add: r' computeResult_def Let_def resale_values num_simps)
  have d': "depreciationCost r = Num True 1000"
    by (simp add: d resale_values num_simps)
  have t': "totalCarCost r = Num False 1000"
    by (simp add: t fu d' resale_values num_simps)
  have m': "monthlySavings r = Num True 500"
    by (simp add: m t' resale_values num_simps)
  have y': "yearlySavings r = Num True 6000"
    by (simp add: y t' resale_values num_simps)
  from r have "the (result (calculateCosts resaleState)) = r" by simp
  with v e fu d' t' m' y' show ?thesis by simp
qed

section \<open>Yearly savings\<close>

lemma rounding_parse:
  "parseFloat ''600000'' = Num False 600000"
  "parseFloat ''1'' = Num False 1"
  by (simp_all add: parse_simps round64_1)

lemma rounding_parse_fraction:
  "parseFloat ''0.3'' = Num False (5404319552844595 / 18014398509481984)"
proof -
  have "round64 False (3 / 10) = Num False (5404319552844595 / 18014398509481984)"
    by (rule round64_nearI [where e = "- 2" and n = 5404319552844595]) (simp_all add: pow2_def)
  then show ?thesis by (simp add: parse_simps)
qed

lemma rounding_valid:
  "fst (validateForm roundingState)" "errors (snd (validateForm roundingState)) = Map.empty"
  by (simp_all add: validateForm_def validateAll_def checkRequired_unfold entries_def rounding_formData
      roundingForm_def validateField_def rounding_parse rounding_parse_fraction cmp_simps Let_def)

lemma rounding_values:
  "parsedValues roundingForm =
     \<lparr>carPrice = Num False 600000, fuelEfficiency = Num False 1, fuelPrice = Num False 1,
      distanceToWork = Num False 0, workingDaysPerMonth = Num False 1,
      maintenanceCosts = Num False 0, insuranceCosts = Num False 0,
      resaleValue = Num False 0, resaleYears = Num False 1,
      publicTransportCosts = Num False (5404319552844595 / 18014398509481984)\<rparr>"
  by (simp add: parsedValues_def roundingForm_def rounding_parse rounding_parse_fraction
      parseFloat_empty js_or_def)

lemma rounding_monthly:
  "js_sub (Num False (5404319552844595 / 18014398509481984)) (Num False 50000)
     = Num True (3435953220956979 / 68719476736)"
proof -
  have "round64 True (900714521154546355405 / 18014398509481984)
          = Num True (3435953220956979 / 68719476736)"
    by (rule round64_nearI [where e = 15 and n = 6871906441913958]) (simp_all add: pow2_def)
  then show ?thesis by (simp add: js_sub_def)
qed

lemma rounding_commute_year:
  "js_mul (Num False (5404319552844595 / 18014398509481984)) (Num False 12)
     = Num False (2026619832316723 / 562949953421312)"
proof -
  have "round64 False ((5404319552844595 / 18014398509481984) * 12)
          = Num False (2026619832316723 / 562949953421312)"
    by (rule round64_tieI [where e = 1 and n = 8106479329266892]) (simp_all add: pow2_def)
  then show ?thesis by simp
qed

lemma rounding_yearly:
  "js_sub (Num False (2026619832316723 / 562949953421312)) (Num False 600000)
     = Num True (5153929831435469 / 8589934592)"
proof -
  have "round64 True (337767945432954883277 / 562949953421312)
          = Num True (5153929831435469 / 8589934592)"
    by (rule round64_nearI [where e = 19 and n = 5153929831435469]) (simp_all add: pow2_def)
  then show ?thesis by (simp add: js_sub_def)
qed

lemma rounding_monthly_times_12:
  "js_mul (Num True (3435953220956979 / 68719476736)) (Num False 12)
     = Num True (1288482457858867 / 2147483648)"
proof -
  have "round64 True ((3435953220956979 / 68719476736) * 12)
          = Num True (1288482457858867 / 2147483648)"
    by (rule round64_tieI [where e = 19 and n = 5153929831435468]) (simp_all add: pow2_def)
  then show ?thesis by simp
qed

lemma rounding_total:
  "totalCarCost (computeResult (parsedValues roundingForm)) = Num False 50000"
  "totalCommuteCost (computeResult (parsedValues roundingForm))
     = Num False (5404319552844595 / 18014398509481984)"
  by (simp_all add: computeResult_def Let_def rounding_values num_simps)

lemma rounding_savings:
  "yearlySavings (computeResult (parsedValues roundingForm))
     = Num True (5153929831435469 / 8589934592)"
proof -
  have c: "js_mul (Num False 50000) (Num False 12) = Num False 600000" by (simp add: num_simps)
  have "yearlySavings (computeResult (parsedValues roundingForm))
          = js_sub (js_mul (publicTransportCosts (parsedValues roundingForm)) (Num False 12))
                   (js_mul (totalCarCost (computeResult (parsedValues roundingForm))) (Num False 12))"
    by (simp add: computeResult_def Let_def)
  also have "\<dots> = Num True (5153929831435469 / 8589934592)"
    unfolding rounding_total
    by (simp only: rounding_values InputSet.select_convs rounding_commute_year c rounding_yearly)
  finally show ?thesis .
qed

lemma js_sub_nonneg:
  "js_sub (Num False x) (Num False y) = (if x = y then Num False 0 else round64 (x < y) \<bar>x - y\<bar>)"
  by (simp add: js_sub_def)

lemma js_sub_of_int:
  assumes "0 \<le> a" "a < 2 ^ 53" "0 \<le> b" "b < 2 ^ 53"
  shows "js_sub (Num False (of_int a)) (Num False (of_int b)) = Num (a < b) (of_int \<bar>a - b\<bar>)"
proof -
  have "\<bar>(of_int a :: rat) - of_int b\<bar> = of_int \<bar>a - b\<bar>" by simp
  moreover have "round64 (a < b) (of_int \<bar>a - b\<bar>) = Num (a < b) (of_int \<bar>a - b\<bar>)"
    using assms by (intro round64_of_int) auto
  ultimately show ?thesis by (simp only: js_sub_nonneg) auto
qed

lemma js_mul_of_int:
  assumes "0 \<le> a" "a * 12 < 2 ^ 53"
  shows "js_mul (Num s (of_int a)) (Num False 12) = Num s (of_int (a * 12))"
  using round64_of_int [of "a * 12" s] assms by simp

lemma savings_distribute_int:
  assumes "0 \<le> a" "a < 2 ^ 49" "0 \<le> b" "b < 2 ^ 49"
  shows "js_sub (js_mul (Num False (of_int a)) (Num False 12)) (js_mul (Num False (of_int b)) (Num False 12))
       = js_mul (js_sub (Num False (of_int a)) (Num False (of_int b))) (Num False 12)"
proof -
  have ma: "js_mul (Num False (of_int a)) (Num False 12) = Num False (of_int (a * 12))"
    using assms(1,2) by (intro js_mul_of_int) auto
  have mb: "js_mul (Num False (of_int b)) (Num False 12) = Num False (of_int (b * 12))"
    using assms(3,4) by (intro js_mul_of_int) auto
  have l: "js_sub (Num False (of_int (a * 12))) (Num False (of_int (b * 12)))
             = Num (a * 12 < b * 12) (of_int \<bar>a * 12 - b * 12\<bar>)"
    using assms by (intro js_sub_of_int) auto
  have r1: "js_sub (Num False (of_int a)) (Num False (of_int b)) = Num (a < b) (of_int \<bar>a - b\<bar>)"
    using assms by (intro js_sub_of_int) auto
  have "\<bar>a - b\<bar> < 2 ^ 49" using assms by linarith
  then have r2: "js_mul (Num (a < b) (of_int \<bar>a - b\<bar>)) (Num False 12) = Num (a < b) (of_int (\<bar>a - b\<bar> * 12))"
    by (intro js_mul_of_int) auto
  have "a * 12 - b * 12 = (a - b) * 12" by simp
  then have "\<bar>a * 12 - b * 12\<bar> = \<bar>a - b\<bar> * 12" by (simp only: abs_mult abs_numeral)
  moreover have "(a * 12 < b * 12) = (a < b)" by simp
  ultimately show ?thesis by (simp only: ma mb l r1 r2)
qed


text \<open>
  C4, as stated, fails: with a monthly fare of 0.3 and a car cost of 50000 a month the
  stored \<open>yearlySavings\<close>, \<open>0.3 * 12 - 50000 * 12\<close>, is the Number
  -599996.4 (magnitude \<open>5153929831435469 / 2^33\<close>), while
  \<open>(totalCommuteCost - totalCarCost) * 12\<close> is the neighbouring Number
  -599996.3999999999 (magnitude \<open>5153929831435468 / 2^33\<close>).
\<close>

theorem yearly_savings_counterexample:
  "fst (validateForm roundingState)
   \<and> result (calculateCosts roundingState) = Some (computeResult (parsedValues roundingForm))
   \<and> yearlySavings (computeResult (parsedValues roundingForm))
       = Num True (5153929831435469 / 8589934592)
   \<and> js_mul (js_sub (totalCommuteCost (computeResult (parsedValues roundingForm)))
                     (totalCarCost (computeResult (parsedValues roundingForm)))) (Num False 12)
       = Num True (1288482457858867 / 2147483648)
   \<and> yearlySavings (computeResult (parsedValues roundingForm))
       \<noteq> js_mul (js_sub (totalCommuteCost (computeResult (parsedValues roundingForm)))
                        (totalCarCost (computeResult (parsedValues roundingForm)))) (Num False 12)"
proof -
  have v: "fst (validateForm roundingState)" by (rule rounding_valid)
  have f: "formData roundingState = roundingForm" by (rule rounding_formData)
  have r: "result (calculateCosts roundingState) = Some (computeResult (parsedValues roundingForm))"
    using calculateCosts_valid [OF v] by (simp only: f)
  have a: "js_mul (js_sub (totalCommuteCost (computeResult (parsedValues roundingForm)))
                     (totalCarCost (computeResult (parsedValues roundingForm)))) (Num False 12)
       = Num True (1288482457858867 / 2147483648)"
    by (simp only: rounding_total rounding_monthly rounding_monthly_times_12)
  have "(5153929831435469 / 8589934592 :: rat) \<noteq> 1288482457858867 / 2147483648" by simp
  then show ?thesis using v r a rounding_savings by simp
qed


text \<open>
  C4, amended. Every result of a successful calculation has
  \<open>monthlySavings = totalCommuteCost - totalCarCost\<close> and
  \<open>yearlySavings = totalCommuteCost * 12 - totalCarCost * 12\<close>, each operation
  rounded to binary64; and \<open>yearlySavings\<close> equals
  \<open>(totalCommuteCost - totalCarCost) * 12\<close> whenever both costs are non-negative
  whole numbers below \<open>2^49\<close>.
\<close>

theorem yearly_savings_from_yearly_costs:
  assumes "fst (validateForm st)"
  shows "\<exists>r. result (calculateCosts st) = Some r
     \<and> monthlySavings r = js_sub (totalCommuteCost r) (totalCarCost r)
     \<and> yearlySavings r =
         js_sub (js_mul (totalCommuteCost r) (Num False 12)) (js_mul (totalCarCost r) (Num False 12))
     \<and> (\<forall>a b. 0 \<le> a \<and> a < 2 ^ 49 \<and> 0 \<le> b \<and> b < 2 ^ 49
              \<and> totalCommuteCost r = Num False (of_int a) \<and> totalCarCost r = Num False (of_int b)
            \<longrightarrow> yearlySavings r
                  = js_mul (js_sub (totalCommuteCost r) (totalCarCost r)) (Num False 12))"
proof -
  let ?r = "computeResult (parsedValues (formData st))"
  have r: "result (calculateCosts st) = Some ?r" using assms by (rule calculateCosts_valid)
  have m: "monthlySavings ?r = js_sub (totalCommuteCost ?r) (totalCarCost ?r)"
    by (simp add: computeResult_def Let_def)
  have y: "yearlySavings ?r =
         js_sub (js_mul (totalCommuteCost ?r) (Num False 12)) (js_mul (totalCarCost ?r) (Num False 12))"
    by (simp add: computeResult_def Let_def)
  have "yearlySavings ?r = js_mul (js_sub (totalCommuteCost ?r) (totalCarCost ?r)) (Num False 12)"
    if "0 \<le> a" "a < 2 ^ 49" "0 \<le> b" "b < 2 ^ 49"
      "totalCommuteCost ?r = Num False (of_int a)" "totalCarCost ?r = Num False (of_int b)"
    for a b
    unfolding y that(5,6) using that(1-4) by (rule savings_distribute_int)
  with r m y show ?thesis by blast
qed

theorem yearly_savings_from_yearly_costs_witness:
  "fst (validateForm resaleState)
   \<and> (0::int) \<le> 500 \<and> (500::int) < 2 ^ 49 \<and> (0::int) \<le> 1000 \<and> (1000::int) < 2 ^ 49
   \<and> totalCommuteCost (the (result (calculateCosts resaleState))) = Num False (of_int 500)
   \<and> totalCarCost (the (result (calculateCosts resaleState))) = Num False (of_int 1000)
   \<and> monthlySavings (the (result (calculateCosts resaleState))) = Num True 500
   \<and> yearlySavings (the (result (calculateCosts resaleState))) = Num True 6000
   \<and> js_mul (js_sub (totalCommuteCost (the (result (calculateCosts resaleState))))
                     (totalCarCost (the (result (calculateCosts resaleState))))) (Num False 12)
       = Num True 6000"
proof -
  have v: "fst (validateForm resaleState)" by (rule resale_valid)
  have f: "formData resaleState = resaleForm" by (rule resale_formData)
  have r': "the (result (calculateCosts resaleState)) = computeResult (parsedValues resaleForm)"
    using calculateCosts_valid [OF v] by (simp add: f)
  have c: "totalCommuteCost (the (result (calculateCosts resaleState))) = Num False (of_int 500)"
    by (simp add: r' computeResult_def Let_def resale_values)
  have t: "totalCarCost (the (result (calculateCosts resaleState))) = Num False (of_int 1000)"
    by (simp add: r' computeResult_def Let_def resale_values num_simps)
  from yearly_savings_from_yearly_costs [OF v] obtain r where
    r: "result (calculateCosts resaleState) = Some r"
    and m: "monthlySavings r = js_sub (totalCommuteCost r) (totalCarCost r)"
    and y: "yearlySavings r =
         js_sub (js_mul (totalCommuteCost r) (Num False 12)) (js_mul (totalCarCost r) (Num False 12))"
    and d: "\<forall>a b. 0 \<le> a \<and> a < 2 ^ 49 \<and> 0 \<le> b \<and> b < 2 ^ 49
              \<and> totalCommuteCost r = Num False (of_int a) \<and> totalCarCost r = Num False (of_int b)
            \<longrightarrow> yearlySavings r
                  = js_mul (js_sub (totalCommuteCost r) (totalCarCost r)) (Num False 12)"
    by blast
  from r have e: "the (result (calculateCosts resaleState)) = r" by simp
  have c': "totalCommuteCost r = Num False (of_int 500)" and t': "totalCarCost r = Num False (of_int 1000)"
    using c t by (simp_all only: e)
  have m': "monthlySavings r = Num True 500" by (simp add: m c' t' num_simps)
  have y': "yearlySavings r = Num True 6000" by (simp add: y c' t' num_simps)
  have "yearlySavings r = js_mul (js_sub (totalCommuteCost r) (totalCarCost r)) (Num False 12)"
    using d c' t' by (elim allE [where x = 500] allE [where x = 1000] impE) simp_all
  then have d': "js_mul (js_sub (totalCommuteCost r) (totalCarCost r)) (Num False 12) = Num True 6000"
    by (simp only: y')
  show ?thesis unfolding e using v c' t' m' y' d' by simp
qed

section \<open>A decimal point as fuel efficiency\<close>

lemma point_parse:
  "parseFloat ''600000'' = Num False 600000"
  "parseFloat ''100'' = Num False 100"
  "parseFloat ''10'' = Num False 10"
  "parseFloat ''22'' = Num False 22"
  "parseFloat ''.'' = NaN"
  by (simp_all add: parse_simps)

lemma point_valid:
  "fst (validateForm pointState)" "errors (snd (validateForm pointState)) = Map.empty"
  by (simp_all add: validateForm_def validateAll_def checkRequired_unfold entries_def point_formData
      pointForm_def validateField_def point_parse cmp_simps Let_def)

lemma point_values:
  "parsedValues pointForm =
     \<lparr>carPrice = Num False 600000, fuelEfficiency = Num False 0, fuelPrice = Num False 100,
      distanceToWork = Num False 10, workingDaysPerMonth = Num False 22,
      maintenanceCosts = Num False 0, insuranceCosts = Num False 0,
      resaleValue = Num False 0, resaleYears = Num False 1,
      publicTransportCosts = Num False 0\<rparr>"
  by (simp add: parsedValues_def pointForm_def point_parse parseFloat_empty js_or_def)


text \<open>
  C2 does not hold of the code. The string \<open>.\<close> passes the input filter, so the form
  with \<open>.\<close> as fuel efficiency is a state the component reaches by typing. The
  string parses to NaN, so \<open>validateField\<close> (whose test \<open>numValue <= 0\<close> is false
  on NaN) reports nothing and the required-field check sees a nonempty string:
  \<open>validateForm\<close> returns true with no error, \<open>NaN || 0\<close> makes the fuel
  efficiency 0, and the engine divides the monthly distance 440 by it. The stored
  fuel cost and total are \<open>Infinity\<close>, the monthly savings \<open>-Infinity\<close>. (For every
  other reachable form that passes validation the fuel efficiency used is strictly
  positive: \<open>validated_fuelEfficiency_positive\<close>.)
\<close>

theorem point_reaches_engine:
  "numeric_input ''.''
   \<and> reachable pointState
   \<and> formData pointState = pointForm
   \<and> fuelEfficiency (formData pointState) = ''.''
   \<and> parseFloat ''.'' = NaN
   \<and> validateField ''fuelEfficiency'' ''.'' = []
   \<and> fst (validateForm pointState)
   \<and> errors (snd (validateForm pointState)) = Map.empty
   \<and> result (calculateCosts pointState) = Some (computeResult (parsedValues pointForm))
   \<and> fuelEfficiency (parsedValues pointForm) = Num False 0
   \<and> \<not> js_gt (fuelEfficiency (parsedValues pointForm)) (Num False 0)
   \<and> fuelCosts (computeResult (parsedValues pointForm)) = Infinity False
   \<and> totalCarCost (computeResult (parsedValues pointForm)) = Infinity False
   \<and> monthlySavings (computeResult (parsedValues pointForm)) = Infinity True"
proof -
  have n: "numeric_input ''.''" by (simp add: numeric_input_def is_digit_def)
  have re: "reachable pointState" by (rule example_reachable)
  have fd: "formData pointState = pointForm" by (rule point_formData)
  have fe: "fuelEfficiency (formData pointState) = ''.''"
    by (simp add: fd) (simp add: pointForm_def)
  have vf: "validateField ''fuelEfficiency'' ''.'' = []"
    by (simp add: validateField_def point_parse cmp_simps)
  have v: "fst (validateForm pointState)" by (rule point_valid)
  have e: "errors (snd (validateForm pointState)) = Map.empty" by (rule point_valid)
  have r: "result (calculateCosts pointState) = Some (computeResult (parsedValues pointForm))"
    using calculateCosts_valid [OF v] by (simp only: fd)
  have c: "fuelCosts (computeResult (parsedValues pointForm)) = Infinity False"
    "totalCarCost (computeResult (parsedValues pointForm)) = Infinity False"
    "monthlySavings (computeResult (parsedValues pointForm)) = Infinity True"
    by (simp_all add: computeResult_def Let_def point_values num_simps)
  have z: "fuelEfficiency (parsedValues pointForm) = Num False 0"
    "\<not> js_gt (fuelEfficiency (parsedValues pointForm)) (Num False 0)"
    by (simp_all add: point_values js_gt_def)
  have p: "parseFloat ''.'' = NaN" by (rule point_parse)
  from n re fd fe p vf v e r z c show ?thesis by blast
qed

section \<open>The formatter\<close>

lemma is_digit_digit_char: "d < 10 \<Longrightarrow> is_digit (digit_char d)"
proof -
  assume "d < 10"
  then have "d \<in> {0, 1, 2, 3, 4, 5, 6, 7, 8, 9}" by auto
  then show ?thesis by (auto simp: is_digit_def digit_char_def)
qed

lemma digit_char_0: "digit_char 0 = CHR ''0''"
  by (simp add: digit_char_def)

lemma digits_all: "digits n \<noteq> [] \<and> (\<forall>c \<in> set (digits n). is_digit c)"
proof (induction n rule: digits.induct)
  case (1 n)
  show ?case
  proof (cases "n < 10")
    case True
    then show ?thesis by (subst (1 2) digits.simps) (simp add: is_digit_digit_char)
  next
    case False
    with "1.IH" show ?thesis
      by (subst (1 2) digits.simps) (simp add: is_digit_digit_char)
  qed
qed

lemma digits_split:
  "replicate (3 - length (digits n)) (CHR ''0'') @ digits n
     = digits (n div 100) @ [digit_char (n div 10 mod 10), digit_char (n mod 10)]"
proof -
  consider "n < 10" | "10 \<le> n" "n < 100" | "100 \<le> n" by linarith
  then show ?thesis
  proof cases
    case 1
    then have "digits n = [digit_char n]" "n div 100 = 0" "n div 10 = 0" "n mod 10 = n"
      by (simp_all add: digits.simps)
    then show ?thesis by (simp add: digits.simps digit_char_0 numeral_3_eq_3)
  next
    case 2
    then have a: "n div 10 < 10" "\<not> n < 10" "n div 100 = 0" by auto
    then have "digits n = [digit_char (n div 10), digit_char (n mod 10)]"
      by (simp add: digits.simps)
    then show ?thesis using a by (simp add: digits.simps digit_char_0 numeral_3_eq_3)
  next
    case 3
    then have a: "\<not> n < 10" "\<not> n div 10 < 10" by auto
    have dd: "n div 10 div 10 = n div 100" by (simp add: div_mult2_eq [symmetric])
    have d: "digits n = digits (n div 100) @ [digit_char (n div 10 mod 10), digit_char (n mod 10)]"
      using a by (subst digits.simps, simp, subst digits.simps) (simp add: dd)
    have "digits (n div 100) \<noteq> []" using digits_all by blast
    then have "3 \<le> length (digits n)" unfolding d by (cases "digits (n div 100)") auto
    then show ?thesis using d by simp
  qed
qed

lemma toFixed_two:
  assumes "m < 10 ^ 21"
  shows "toFixed e (Num s m) 2 =
           (if s \<and> m \<noteq> 0 then ''-'' else []) @ digits (nat \<lfloor>m * 100 + 1 / 2\<rfloor> div 100)
             @ [CHR ''.'', digit_char (nat \<lfloor>m * 100 + 1 / 2\<rfloor> div 10 mod 10),
                digit_char (nat \<lfloor>m * 100 + 1 / 2\<rfloor> mod 10)]"
proof -
  let ?n = "nat \<lfloor>m * 100 + 1 / 2\<rfloor>"
  let ?p = "replicate (3 - length (digits ?n)) (CHR ''0'') @ digits ?n"
  have p: "?p = digits (?n div 100) @ [digit_char (?n div 10 mod 10), digit_char (?n mod 10)]"
    by (rule digits_split)
  have "toFixed e (Num s m) 2 =
          (if s \<and> m \<noteq> 0 then ''-'' else []) @ take (length ?p - 2) ?p @ ''.'' @ drop (length ?p - 2) ?p"
    using assms by (simp add: toFixed_def Let_def)
  also have "\<dots> = (if s \<and> m \<noteq> 0 then ''-'' else []) @ digits (?n div 100)
             @ [CHR ''.'', digit_char (?n div 10 mod 10), digit_char (?n mod 10)]"
    unfolding p by simp
  finally show ?thesis .
qed

lemma two_decimals_render:
  assumes "d1 < 10" "d2 < 10"
  shows "two_decimals ((if b then ''-'' else []) @ digits k @ [CHR ''.'', digit_char d1, digit_char d2])"
proof -
  let ?t = "[CHR ''.'', digit_char d1, digit_char d2]"
  from digits_all[of k] have ne: "digits k \<noteq> []" and al: "\<forall>c \<in> set (digits k). is_digit c" by auto
  have nd: "\<not> is_digit (CHR ''.'')" "\<not> is_digit (CHR ''-'')" by (simp_all add: is_digit_def)
  have hd: "hd (digits k @ ?t) \<noteq> CHR ''-''"
    using ne al nd(2) by (cases "digits k") auto
  have tw: "takeWhile is_digit (digits k @ ?t) = digits k"
    using al nd(1) by (simp add: takeWhile_append2)
  have dw: "dropWhile is_digit (digits k @ ?t) = ?t"
    using al nd(1) by (simp add: dropWhile_append2)
  have "two_decimals (digits k @ ?t)"
    unfolding two_decimals_def Let_def using hd ne assms
    by (simp add: tw dw is_digit_digit_char)
  moreover have "two_decimals (''-'' @ digits k @ ?t)"
    unfolding two_decimals_def Let_def using ne assms
    by (simp add: tw dw is_digit_digit_char)
  ultimately show ?thesis by (cases b) simp_all
qed

lemma toFixed_two_decimals: "m < 10 ^ 21 \<Longrightarrow> two_decimals (toFixed e (Num s m) 2)"
  unfolding toFixed_two by (rule two_decimals_render) simp_all

lemma floor_rat_numeral: "\<lfloor>(numeral a :: rat) / numeral b\<rfloor> = numeral a div numeral b"
  using floor_divide_of_int_eq [of "numeral a" "numeral b", where ?'a = rat] by simp

lemma toFixed_one: "toFixed e (Num False 1) 2 = ''1.00''"
  by (simp add: toFixed_two floor_rat_numeral digits.simps digit_char_def)

lemma js_lt_not_ge: "js_lt x y \<Longrightarrow> \<not> js_ge x y"
  by (simp add: js_ge_def)

lemma js_lt_mono: "js_lt x (Num False a) \<Longrightarrow> a \<le> b \<Longrightarrow> js_lt x (Num False b)"
  by (cases x) auto

lemma formatIndianNumber_below:
  assumes "js_lt num (Num False 1000)"
  shows "formatIndianNumber e num = toFixed e num 2"
proof -
  have "js_lt num (Num False 100000)" "js_lt num (Num False 10000000)"
    using assms by (auto intro: js_lt_mono)
  with assms show ?thesis by (simp add: formatIndianNumber_def js_lt_not_ge)
qed

lemma format_eleven_six:
  "js_div (Num False 11600) (Num False 1000) = Num False (6530219459687219 / 562949953421312)"
proof -
  have "round64 False (11600 / 1000) = Num False (6530219459687219 / 562949953421312)"
    by (rule round64_nearI [where e = 3 and n = 6530219459687219]) (simp_all add: pow2_def)
  then show ?thesis by simp
qed

lemma format_two_and_half:
  "js_div (Num False 250000) (Num False 100000) = Num False (5 / 2)"
proof -
  have "round64 False (5 / 2) = Num False (5 / 2)"
    by (rule round64_exact [where n = 5 and q = "- 1"]) (simp_all add: pow2_def)
  then show ?thesis by simp
qed

lemmas fixed_simps = toFixed_two floor_rat_numeral digits.simps digit_char_def

lemma round64_ten_21: "round64 s (10 ^ 21) = Num s (10 ^ 21)"
  by (rule round64_exact [where n = 476837158203125 and q = 21]) (simp_all add: pow2_def)

lemma format_exponential:
  "formatIndianNumber e (Num False (10 ^ 28)) = e (10 ^ 21) @ '' Cr''"
proof -
  have "round64 False (10 ^ 21) = Num False (10 ^ 21)" by (rule round64_ten_21)
  then have "js_div (Num False (10 ^ 28)) (Num False 10000000) = Num False (10 ^ 21)" by simp
  then show ?thesis by (simp add: formatIndianNumber_def cmp_simps toFixed_def)
qed

lemma below_exponential:
  "formatIndianNumber e (Num True (10 ^ 21)) = ''-'' @ e (10 ^ 21)"
  by (simp add: formatIndianNumber_def cmp_simps toFixed_def)

text \<open>
  C7, as stated, fails where \<open>toFixed\<close> does not print decimals: a total of
  \<open>Infinity\<close> (which the calculation stores when the fuel efficiency is 0, or when
  a typed price is beyond the binary64 range) is in the first band and is shown as
  \<open>Infinity Cr\<close>, which is no value rounded to two decimal places. A finite value
  from \<open>10^28\<close> on is shown in the exponential notation of \<open>Number::toString\<close>
  (\<open>format_exponential\<close>).
\<close>

theorem format_infinity_counterexample:
  "js_ge (Infinity False) (Num False 10000000)
   \<and> formatIndianNumber (\<lambda>m. []) (Infinity False) = ''Infinity Cr''
   \<and> toFixed (\<lambda>m. []) (js_div (Infinity False) (Num False 10000000)) 2 = ''Infinity''
   \<and> \<not> two_decimals ''Infinity''"
  by (simp add: formatIndianNumber_def toFixed_def cmp_simps two_decimals_def is_digit_def)


text \<open>
  C7, amended. The formatter has three bands: a value \<open>\<ge> 10,000,000\<close> is divided by
  10,000,000 and given the suffix \<open>Cr\<close>; a value \<open>\<ge> 100,000\<close> and
  \<open>< 10,000,000\<close> is divided by 100,000 with suffix \<open>L\<close>; a value \<open>\<ge> 1,000\<close>
  and \<open>< 100,000\<close> is divided by 1,000 with suffix \<open>K\<close>; a value below 1,000 is
  shown unscaled with no suffix. The scaled value is printed by \<open>toFixed(2)\<close>: for
  every finite value below \<open>10^21\<close> that is the integer nearest to a hundred times
  the value (a tie goes up), printed with two digits after the point. In particular
  1000 gives \<open>1.00 K\<close>, 100000 gives \<open>1.00 L\<close> and 10000000 gives \<open>1.00 Cr\<close>.
\<close>

theorem format_bands:
  "(js_ge num (Num False 10000000) \<longrightarrow>
      formatIndianNumber e num = toFixed e (js_div num (Num False 10000000)) 2 @ '' Cr'')
   \<and> (js_ge num (Num False 100000) \<and> js_lt num (Num False 10000000) \<longrightarrow>
      formatIndianNumber e num = toFixed e (js_div num (Num False 100000)) 2 @ '' L'')
   \<and> (js_ge num (Num False 1000) \<and> js_lt num (Num False 100000) \<longrightarrow>
      formatIndianNumber e num = toFixed e (js_div num (Num False 1000)) 2 @ '' K'')
   \<and> (js_lt num (Num False 1000) \<longrightarrow> formatIndianNumber e num = toFixed e num 2)
   \<and> (\<forall>s m. m < 10 ^ 21 \<longrightarrow>
        toFixed e (Num s m) 2 =
          (if s \<and> m \<noteq> 0 then ''-'' else []) @ digits (nat \<lfloor>m * 100 + 1 / 2\<rfloor> div 100)
            @ [CHR ''.'', digit_char (nat \<lfloor>m * 100 + 1 / 2\<rfloor> div 10 mod 10),
               digit_char (nat \<lfloor>m * 100 + 1 / 2\<rfloor> mod 10)]
        \<and> two_decimals (toFixed e (Num s m) 2))
   \<and> formatIndianNumber e (Num False 1000) = ''1.00 K''
   \<and> formatIndianNumber e (Num False 100000) = ''1.00 L''
   \<and> formatIndianNumber e (Num False 10000000) = ''1.00 Cr''"
proof -
  have cr: "formatIndianNumber e num = toFixed e (js_div num (Num False 10000000)) 2 @ '' Cr''"
    if "js_ge num (Num False 10000000)"
    using that by (simp add: formatIndianNumber_def)
  have l: "formatIndianNumber e num = toFixed e (js_div num (Num False 100000)) 2 @ '' L''"
    if "js_ge num (Num False 100000)" "js_lt num (Num False 10000000)"
    using that by (simp add: formatIndianNumber_def js_lt_not_ge)
  have k: "formatIndianNumber e num = toFixed e (js_div num (Num False 1000)) 2 @ '' K''"
    if "js_ge num (Num False 1000)" "js_lt num (Num False 100000)"
  proof -
    have "js_lt num (Num False 10000000)" using that(2) by (rule js_lt_mono) simp
    with that show ?thesis by (simp add: formatIndianNumber_def js_lt_not_ge)
  qed
  have b: "formatIndianNumber e num = toFixed e num 2" if "js_lt num (Num False 1000)"
    using that by (rule formatIndianNumber_below)
  have one: "toFixed e (Num False 1) 2 = ''1.00''" by (rule toFixed_one)
  have c1: "formatIndianNumber e (Num False 1000) = ''1.00 K''"
    by (simp add: formatIndianNumber_def cmp_simps num_simps one)
  have c2: "formatIndianNumber e (Num False 100000) = ''1.00 L''"
    by (simp add: formatIndianNumber_def cmp_simps num_simps one)
  have c3: "formatIndianNumber e (Num False 10000000) = ''1.00 Cr''"
    by (simp add: formatIndianNumber_def cmp_simps num_simps one)
  show ?thesis
    using cr l k b c1 c2 c3 toFixed_two [of _ e] toFixed_two_decimals [of _ e] by blast
qed


theorem format_bands_witness:
  "js_ge (Num False 30000000) (Num False 10000000)
   \<and> formatIndianNumber (\<lambda>m. []) (Num False 30000000) = ''3.00 Cr''
   \<and> js_ge (Num False 250000) (Num False 100000) \<and> js_lt (Num False 250000) (Num False 10000000)
   \<and> formatIndianNumber (\<lambda>m. []) (Num False 250000) = ''2.50 L''
   \<and> js_ge (Num False 11600) (Num False 1000) \<and> js_lt (Num False 11600) (Num False 100000)
   \<and> formatIndianNumber (\<lambda>m. []) (Num False 11600) = ''11.60 K''
   \<and> js_lt (Num False 999) (Num False 1000)
   \<and> formatIndianNumber (\<lambda>m. []) (Num False 999) = ''999.00''
   \<and> (6530219459687219 / 562949953421312 :: rat) < 10 ^ 21
   \<and> two_decimals (toFixed (\<lambda>m. []) (Num False (6530219459687219 / 562949953421312)) 2)"
proof -
  note t = format_bands [of _ "\<lambda>m. []"]
  have h1: "js_ge (Num False 30000000) (Num False 10000000)" by (simp add: cmp_simps)
  have h2: "js_ge (Num False 250000) (Num False 100000) \<and> js_lt (Num False 250000) (Num False 10000000)"
    by (simp add: cmp_simps)
  have h3: "js_ge (Num False 11600) (Num False 1000) \<and> js_lt (Num False 11600) (Num False 100000)"
    by (simp add: cmp_simps)
  have h4: "js_lt (Num False 999) (Num False 1000)" by simp
  have h5: "(6530219459687219 / 562949953421312 :: rat) < 10 ^ 21" by simp
  have d1: "js_div (Num False 30000000) (Num False 10000000) = Num False 3" by (simp add: num_simps)
  from t [of "Num False 30000000"] h1
  have "formatIndianNumber (\<lambda>m. []) (Num False 30000000)
          = toFixed (\<lambda>m. []) (js_div (Num False 30000000) (Num False 10000000)) 2 @ '' Cr''"
    by blast
  then have r1: "formatIndianNumber (\<lambda>m. []) (Num False 30000000) = ''3.00 Cr''"
    by (simp only: d1) (simp add: fixed_simps)
  from t [of "Num False 250000"] h2
  have "formatIndianNumber (\<lambda>m. []) (Num False 250000)
          = toFixed (\<lambda>m. []) (js_div (Num False 250000) (Num False 100000)) 2 @ '' L''"
    by blast
  then have r2: "formatIndianNumber (\<lambda>m. []) (Num False 250000) = ''2.50 L''"
    by (simp only: format_two_and_half) (simp add: fixed_simps)
  from t [of "Num False 11600"] h3
  have "formatIndianNumber (\<lambda>m. []) (Num False 11600)
          = toFixed (\<lambda>m. []) (js_div (Num False 11600) (Num False 1000)) 2 @ '' K''"
    by blast
  then have r3: "formatIndianNumber (\<lambda>m. []) (Num False 11600) = ''11.60 K''"
    by (simp only: format_eleven_six) (simp add: fixed_simps)
  from t [of "Num False 999"] h4
  have "formatIndianNumber (\<lambda>m. []) (Num False 999) = toFixed (\<lambda>m. []) (Num False 999) 2"
    by blast
  then have r4: "formatIndianNumber (\<lambda>m. []) (Num False 999) = ''999.00''"
    by (simp add: fixed_simps)
  from t [of "Num False 0"] h5
  have r5: "two_decimals (toFixed (\<lambda>m. []) (Num False (6530219459687219 / 562949953421312)) 2)"
    by blast
  from h1 h2 h3 h4 h5 r1 r2 r3 r4 r5 show ?thesis by blast
qed


text \<open>
  C10, as stated, fails at \<open>-Infinity\<close>, a negative Number below 1,000 (it is the
  stored depreciation when the resale value is beyond the binary64 range): the
  formatter returns \<open>-Infinity\<close>, which has no decimal places. A finite value
  down from \<open>-10^21\<close> is shown in the exponential notation of
  \<open>Number::toString\<close> (\<open>below_exponential\<close>).
\<close>

theorem below_thousand_counterexample:
  "js_lt (Infinity True) (Num False 1000)
   \<and> formatIndianNumber (\<lambda>m. []) (Infinity True) = ''-Infinity''
   \<and> \<not> two_decimals (formatIndianNumber (\<lambda>m. []) (Infinity True))"
  by (simp add: formatIndianNumber_def toFixed_def cmp_simps two_decimals_def is_digit_def)


text \<open>
  C10, amended. For every input strictly below 1,000, negative ones included, the
  formatter skips the three bands and returns \<open>num.toFixed(2)\<close> with no suffix. For
  every such finite input of magnitude below \<open>10^21\<close> that is the number rendered
  with exactly two decimal places: a minus sign if it is negative, the integer
  nearest to a hundred times its magnitude (a tie goes up), the point before the last
  two digits.
\<close>

theorem below_thousand_unscaled:
  assumes "js_lt num (Num False 1000)"
  shows "formatIndianNumber e num = toFixed e num 2
     \<and> (\<forall>s m. num = Num s m \<and> m < 10 ^ 21 \<longrightarrow>
          formatIndianNumber e num =
            (if s \<and> m \<noteq> 0 then ''-'' else []) @ digits (nat \<lfloor>m * 100 + 1 / 2\<rfloor> div 100)
              @ [CHR ''.'', digit_char (nat \<lfloor>m * 100 + 1 / 2\<rfloor> div 10 mod 10),
                 digit_char (nat \<lfloor>m * 100 + 1 / 2\<rfloor> mod 10)]
          \<and> two_decimals (formatIndianNumber e num))"
proof -
  have a: "formatIndianNumber e num = toFixed e num 2" using assms by (rule formatIndianNumber_below)
  have "formatIndianNumber e num =
            (if s \<and> m \<noteq> 0 then ''-'' else []) @ digits (nat \<lfloor>m * 100 + 1 / 2\<rfloor> div 100)
              @ [CHR ''.'', digit_char (nat \<lfloor>m * 100 + 1 / 2\<rfloor> div 10 mod 10),
                 digit_char (nat \<lfloor>m * 100 + 1 / 2\<rfloor> mod 10)]
          \<and> two_decimals (formatIndianNumber e num)"
    if "num = Num s m" "m < 10 ^ 21" for s m
  proof -
    have a': "formatIndianNumber e (Num s m) = toFixed e (Num s m) 2" using a by (simp only: that(1))
    show ?thesis
      unfolding that(1) a'
      using toFixed_two [OF that(2), of e s] toFixed_two_decimals [OF that(2), of e s] by blast
  qed
  with a show ?thesis by blast
qed


theorem below_thousand_unscaled_witness:
  "js_lt (Num True 1000) (Num False 1000) \<and> (1000 :: rat) < 10 ^ 21
   \<and> formatIndianNumber (\<lambda>m. []) (Num True 1000) = ''-1000.00''
   \<and> two_decimals (formatIndianNumber (\<lambda>m. []) (Num True 1000))
   \<and> js_lt (Num True (1 / 8)) (Num False 1000) \<and> (1 / 8 :: rat) < 10 ^ 21
   \<and> formatIndianNumber (\<lambda>m. []) (Num True (1 / 8)) = ''-0.13''"
proof -
  have h1: "js_lt (Num True 1000) (Num False 1000)" by simp
  have h2: "js_lt (Num True (1 / 8)) (Num False 1000)" by simp
  have b1: "(1000 :: rat) < 10 ^ 21" and b2: "(1 / 8 :: rat) < 10 ^ 21" by simp_all
  from below_thousand_unscaled [OF h1, of "\<lambda>m. []"] b1
  have a: "formatIndianNumber (\<lambda>m. []) (Num True 1000) =
            (if True \<and> (1000 :: rat) \<noteq> 0 then ''-'' else []) @ digits (nat \<lfloor>(1000 :: rat) * 100 + 1 / 2\<rfloor> div 100)
              @ [CHR ''.'', digit_char (nat \<lfloor>(1000 :: rat) * 100 + 1 / 2\<rfloor> div 10 mod 10),
                 digit_char (nat \<lfloor>(1000 :: rat) * 100 + 1 / 2\<rfloor> mod 10)]"
    and a': "two_decimals (formatIndianNumber (\<lambda>m. []) (Num True 1000))"
    by blast+
  from below_thousand_unscaled [OF h2, of "\<lambda>m. []"] b2
  have c: "formatIndianNumber (\<lambda>m. []) (Num True (1 / 8)) =
            (if True \<and> (1 / 8 :: rat) \<noteq> 0 then ''-'' else []) @ digits (nat \<lfloor>(1 / 8 :: rat) * 100 + 1 / 2\<rfloor> div 100)
              @ [CHR ''.'', digit_char (nat \<lfloor>(1 / 8 :: rat) * 100 + 1 / 2\<rfloor> div 10 mod 10),
                 digit_char (nat \<lfloor>(1 / 8 :: rat) * 100 + 1 / 2\<rfloor> mod 10)]"
    by blast
  have r1: "formatIndianNumber (\<lambda>m. []) (Num True 1000) = ''-1000.00''"
    unfolding a by (simp add: floor_rat_numeral digits.simps digit_char_def)
  have r2: "formatIndianNumber (\<lambda>m. []) (Num True (1 / 8)) = ''-0.13''"
    unfolding c by (simp add: floor_rat_numeral digits.simps digit_char_def)
  from h1 h2 b1 b2 r1 r2 a' show ?thesis by blast
qed

end
